theory Spec2Isabelle
  imports Complex_Main
begin

section \<open>Data model of rep\_counter.py\<close>

text \<open>
  Numbers: angles, thresholds and timestamps are Python numbers; they are modelled as
  \<open>real\<close>, counters as \<open>int\<close>. The per-limb dicts of \<open>RepCounter\<close> are keyed by the
  strings 'RIGHT' and 'LEFT' only (any other key raises KeyError), so a key is a value of
  the two-element type \<open>Arm\<close> and a dict is a function on it.
\<close>

datatype Arm = RIGHT | LEFT

text \<open>
  Modelled from the spec: \<open>constants.ArmStage\<close> is imported by rep\_counter.py and is
  not part of the source. The spec names the four stages UP, DOWN, MOVING\_UP and
  MOVING\_DOWN, with pairwise distinct values. \<open>OTHER v\<close> stands for every other value
  \<open>metrics.stage\<close> may hold, which \<open>_determine_target_state\<close> hands back unchanged in
  its last line.
\<close>

datatype ArmStage = UP | DOWN | MOVING_UP | MOVING_DOWN | OTHER string

text \<open>
  Modelled from the spec: the class of \<open>calibration_data\<close> is not part of the source.
  The spec gives it the two read-only thresholds, which are the two attributes the code
  reads.
\<close>

record Calibration =
  contracted_threshold :: real
  extended_threshold :: real

text \<open>
  Modelled from the spec: the class of the caller's \<open>metrics\<close> object is not part of
  the source. Its fields are the per-limb metrics of the spec together with
  \<open>last_down_time\<close>, that is, every attribute of \<open>metrics\<close> the code reads or assigns.
\<close>

record Metrics =
  angle :: real
  stage :: ArmStage
  rep_count :: int
  rep_time :: real
  min_rep_time :: real
  curr_rep_time :: real
  last_down_time :: real
  feedback :: string

text \<open>
  Modelled from the spec: the class of the caller's \<open>history\<close> object is not part of
  the source. The spec describes it as per-limb counters of safety and correction events;
  the only attribute the code reads or writes is \<open>f"{arm.lower()}_feedback_count"\<close>,
  that is \<open>right_feedback_count\<close> or \<open>left_feedback_count\<close>, and these two are the
  fields of the record.
\<close>

record History =
  right_feedback_count :: int
  left_feedback_count :: int

text \<open>The attributes of a \<open>RepCounter\<close> instance, except the constant phrase list.\<close>

record RepCounter =
  calibration :: Calibration
  min_rep_duration :: real
  angle_history :: "Arm \<Rightarrow> real list"
  state_hold_time :: real
  pending_state :: "Arm \<Rightarrow> ArmStage option"
  pending_state_start :: "Arm \<Rightarrow> real"
  rep_start_time :: "Arm \<Rightarrow> real"
  last_rep_time :: "Arm \<Rightarrow> real"
  current_compliment :: "Arm \<Rightarrow> string"
  hysteresis_margin :: real

text \<open>
  \<open>self.compliments\<close> is the literal six-element list assigned in \<open>__init__\<close> and
  nowhere else.
\<close>

definition compliments :: "string list" where
  "compliments =
     [''Looking Strong!'', ''Great Control!'', ''Perfect Form!'',
      ''Keep Pushing!'', ''Solid Rep!'', ''Nice Pace!'']"

text \<open>
  \<open>random.choice(seq)\<close> returns \<open>seq[i]\<close> for an index \<open>i < len(seq)\<close> drawn from the
  global generator. The draw is an input of the model: \<open>rnd\<close> is the number the
  generator produces, reduced to an index of the list.
\<close>

definition random_choice :: "nat \<Rightarrow> string list \<Rightarrow> string" where
  "random_choice rnd xs = xs ! (rnd mod length xs)"

text \<open>\<open>RepCounter.__init__(calibration_data, min_rep_duration=0.6)\<close>\<close>

definition RepCounter_init :: "Calibration \<Rightarrow> real \<Rightarrow> RepCounter" where
  "RepCounter_init calibration_data min_rep_dur =
     \<lparr> calibration = calibration_data,
       min_rep_duration = min_rep_dur,
       angle_history = (\<lambda>_. []),
       state_hold_time = 0.15,
       pending_state = (\<lambda>_. None),
       pending_state_start = (\<lambda>_. 0),
       rep_start_time = (\<lambda>_. 0),
       last_rep_time = (\<lambda>_. 0),
       current_compliment = (\<lambda>_. ''Maintain Form''),
       hysteresis_margin = 5 \<rparr>"

definition RepCounter_init_default :: "Calibration \<Rightarrow> RepCounter" where
  "RepCounter_init_default calibration_data = RepCounter_init calibration_data 0.6"

section \<open>Operations\<close>

text \<open>
  \<open>deque(maxlen=n).append(x)\<close>: the item is appended on the right and, when the deque
  then holds more than \<open>n\<close> items, the leftmost one is dropped.
\<close>

definition deque_append :: "nat \<Rightarrow> 'a list \<Rightarrow> 'a \<Rightarrow> 'a list" where
  "deque_append maxlen xs x =
     (let ys = xs @ [x] in if length ys > maxlen then tl ys else ys)"

text \<open>
  \<open>abs(recent_angles[-1] - recent_angles[-4]) / 3\<close>; the code evaluates it only on a
  list of at least four items, where both indices are in range.
\<close>

definition velocity_of :: "real list \<Rightarrow> real" where
  "velocity_of recent_angles =
     \<bar>recent_angles ! (length recent_angles - 1)
        - recent_angles ! (length recent_angles - 4)\<bar> / 3"

text \<open>\<open>RepCounter._determine_target_state\<close>\<close>

definition determine_target_state ::
  "RepCounter \<Rightarrow> real \<Rightarrow> real \<Rightarrow> real \<Rightarrow> ArmStage \<Rightarrow> ArmStage" where
  "determine_target_state s ang contracted extended current_stage =
     (let margin = hysteresis_margin s in
      if ang \<le> contracted - margin then UP
      else if ang \<ge> extended + margin then DOWN
      else if current_stage = UP then
        (if ang < contracted + margin then UP else MOVING_DOWN)
      else if current_stage = DOWN then
        (if ang > extended - margin then DOWN else MOVING_UP)
      else if current_stage = MOVING_UP then
        (if ang \<le> contracted - margin then UP
         else if ang \<ge> extended + margin then DOWN
         else MOVING_UP)
      else if current_stage = MOVING_DOWN then
        (if ang \<ge> extended + margin then DOWN
         else if ang \<le> contracted - margin then UP
         else MOVING_DOWN)
      else current_stage)"

text \<open>
  \<open>RepCounter._handle_state_transition\<close>. It mutates \<open>self\<close> and \<open>metrics\<close> and leaves
  \<open>history\<close> alone, so the model returns the new counter and the new metrics.
\<close>

definition handle_state_transition ::
  "RepCounter \<Rightarrow> Arm \<Rightarrow> ArmStage \<Rightarrow> ArmStage \<Rightarrow> Metrics \<Rightarrow> real \<Rightarrow> nat
     \<Rightarrow> RepCounter \<times> Metrics" where
  "handle_state_transition s arm prev_stage new_stage m current_time rnd =
     (let m1 = m\<lparr>stage := new_stage\<rparr> in
      if prev_stage = UP then
        (if new_stage = MOVING_DOWN \<or> new_stage = DOWN then
           (let rt = current_time - last_down_time m1 in
            if rt \<ge> min_rep_duration s then
              (s\<lparr>last_rep_time := (last_rep_time s)(arm := current_time),
                 current_compliment :=
                   (current_compliment s)(arm := random_choice rnd compliments)\<rparr>,
               m1\<lparr>rep_count := rep_count m1 + 1,
                  rep_time := rt,
                  min_rep_time :=
                    (if min_rep_time m1 = 0 then rt else min rt (min_rep_time m1)),
                  last_down_time := current_time,
                  curr_rep_time := 0\<rparr>)
            else (s, m1))
         else (s, m1))
      else if new_stage = DOWN then
        (s\<lparr>rep_start_time := (rep_start_time s)(arm := current_time)\<rparr>, m1)
      else if new_stage = UP then
        (if rep_start_time s arm = 0
         then (s\<lparr>rep_start_time := (rep_start_time s)(arm := current_time)\<rparr>, m1)
         else (s, m1))
      else (s, m1))"

text \<open>
  \<open>setattr(history, feedback_key, getattr(history, feedback_key) + 1)\<close> with
  \<open>feedback_key = f"{arm.lower()}_feedback_count"\<close>.
\<close>

definition bump_feedback_count :: "Arm \<Rightarrow> History \<Rightarrow> History" where
  "bump_feedback_count arm h =
     (case arm of
        RIGHT \<Rightarrow> h\<lparr>right_feedback_count := right_feedback_count h + 1\<rparr>
      | LEFT \<Rightarrow> h\<lparr>left_feedback_count := left_feedback_count h + 1\<rparr>)"

text \<open>\<open>getattr(history, f"{arm.lower()}_feedback_count")\<close>\<close>

definition feedback_count :: "Arm \<Rightarrow> History \<Rightarrow> int" where
  "feedback_count arm h =
     (case arm of RIGHT \<Rightarrow> right_feedback_count h | LEFT \<Rightarrow> left_feedback_count h)"

text \<open>
  \<open>RepCounter._provide_form_feedback\<close>. It mutates \<open>metrics\<close> and \<open>history\<close> and only
  reads \<open>self\<close>. Every path that does not return early ends in the last
  \<open>if\<close>/\<open>else\<close> of the method, bound here as \<open>positive_reinforcement\<close>.
\<close>

definition provide_form_feedback ::
  "RepCounter \<Rightarrow> real \<Rightarrow> Metrics \<Rightarrow> real \<Rightarrow> real \<Rightarrow> Arm \<Rightarrow> History \<Rightarrow> real \<Rightarrow> real
     \<Rightarrow> Metrics \<times> History" where
  "provide_form_feedback s ang m contracted extended arm h velocity current_time =
     (let positive_reinforcement =
            (if current_time - last_rep_time s arm < 2.0
             then (m\<lparr>feedback := current_compliment s arm\<rparr>, h)
             else (m\<lparr>feedback := ''Maintain Form''\<rparr>, h))
      in
      if ang > 178 then
        (m\<lparr>feedback := ''Over Extending''\<rparr>, bump_feedback_count arm h)
      else if ang < 2 then
        (m\<lparr>feedback := ''Over Curling''\<rparr>, bump_feedback_count arm h)
      else
        (let is_stalled = velocity < 0.5 in
         if is_stalled then
           (if stage m = MOVING_UP \<or> stage m = UP then
              (if ang > contracted + 10
               then (m\<lparr>feedback := ''Curl Higher''\<rparr>, bump_feedback_count arm h)
               else positive_reinforcement)
            else if stage m = MOVING_DOWN \<or> stage m = DOWN then
              (if ang < extended - 10
               then (m\<lparr>feedback := ''Extend Fully''\<rparr>, bump_feedback_count arm h)
               else positive_reinforcement)
            else positive_reinforcement)
         else positive_reinforcement))"

text \<open>
  The state confirmation block of \<open>process_rep\<close> (the \<open>if target_state != prev_stage\<close>
  statement with both its branches).
\<close>

definition state_confirmation ::
  "RepCounter \<Rightarrow> Arm \<Rightarrow> ArmStage \<Rightarrow> ArmStage \<Rightarrow> Metrics \<Rightarrow> real \<Rightarrow> real \<Rightarrow> nat
     \<Rightarrow> RepCounter \<times> Metrics" where
  "state_confirmation s arm prev_stage target_state m current_time velocity rnd =
     (if target_state \<noteq> prev_stage then
        (if pending_state s arm = Some target_state then
           (let hold_duration = current_time - pending_state_start s arm;
                velocity_settled = velocity < 15
            in if hold_duration \<ge> state_hold_time s \<and> velocity_settled
               then handle_state_transition s arm prev_stage target_state m current_time rnd
               else (s, m))
         else
           (s\<lparr>pending_state := (pending_state s)(arm := Some target_state),
              pending_state_start := (pending_state_start s)(arm := current_time)\<rparr>, m))
      else
        (s\<lparr>pending_state := (pending_state s)(arm := None)\<rparr>, m))"

text \<open>
  \<open>RepCounter.process_rep\<close>. The three objects it mutates (\<open>self\<close>, \<open>metrics\<close>,
  \<open>history\<close>) are returned; \<open>rnd\<close> is the draw of the random generator, used only when
  a repetition is counted.
\<close>

definition process_rep ::
  "RepCounter \<Rightarrow> Arm \<Rightarrow> real \<Rightarrow> Metrics \<Rightarrow> real \<Rightarrow> History \<Rightarrow> nat
     \<Rightarrow> RepCounter \<times> Metrics \<times> History" where
  "process_rep s arm ang m current_time h rnd =
     (let m0 = m\<lparr>angle := ang\<rparr>;
          s0 = s\<lparr>angle_history :=
                   (angle_history s)(arm := deque_append 8 (angle_history s arm) ang)\<rparr>
      in if length (angle_history s0 arm) < 4 then (s0, m0, h)
         else
           (let recent_angles = angle_history s0 arm;
                velocity = velocity_of recent_angles;
                prev_stage = stage m0;
                contracted = contracted_threshold (calibration s0);
                extended = extended_threshold (calibration s0);
                target_state =
                  determine_target_state s0 ang contracted extended prev_stage;
                (s1, m1) =
                  state_confirmation s0 arm prev_stage target_state m0
                    current_time velocity rnd;
                m2 = (if stage m1 = UP
                      then m1\<lparr>curr_rep_time := current_time - rep_start_time s1 arm\<rparr>
                      else m1);
                (m3, h3) =
                  provide_form_feedback s1 ang m2 contracted extended arm h
                    velocity current_time
            in (s1, m3, h3)))"

text \<open>\<open>RepCounter.reset_arm\<close>\<close>

definition reset_arm :: "RepCounter \<Rightarrow> Arm \<Rightarrow> RepCounter" where
  "reset_arm s arm =
     s\<lparr>angle_history := (angle_history s)(arm := []),
       pending_state := (pending_state s)(arm := None),
       pending_state_start := (pending_state_start s)(arm := 0),
       rep_start_time := (rep_start_time s)(arm := 0)\<rparr>"

section \<open>Sessions\<close>

text \<open>
  The caller's side of the interface: one \<open>RepCounter\<close>, one metrics record per limb
  and one history record; each call is either \<open>process_rep\<close> on a limb, with the angle,
  the timestamp and the generator's draw, or \<open>reset_arm\<close> on a limb.
\<close>

record Session =
  counter :: RepCounter
  arm_metrics :: "Arm \<Rightarrow> Metrics"
  history :: History

datatype Call = Process_rep Arm real real nat | Reset_arm Arm

fun step :: "Session \<Rightarrow> Call \<Rightarrow> Session" where
  "step ss (Process_rep arm ang current_time rnd) =
     (case process_rep (counter ss) arm ang (arm_metrics ss arm) current_time
             (history ss) rnd of
        (s', m', h') \<Rightarrow>
          \<lparr>counter = s', arm_metrics = (arm_metrics ss)(arm := m'), history = h'\<rparr>)"
| "step ss (Reset_arm arm) = ss\<lparr>counter := reset_arm (counter ss) arm\<rparr>"

fun run :: "Session \<Rightarrow> Call list \<Rightarrow> Session" where
  "run ss [] = ss"
| "run ss (c # cs) = run (step ss c) cs"

section \<open>Conditions read off the code\<close>

text \<open>
  \<open>commits\<close> is the conjunction of the tests of \<open>process_rep\<close> under which
  \<open>_handle_state_transition\<close> is called: the target differs from the committed stage,
  it is the pending candidate, the candidate has been held for \<open>state_hold_time\<close> and
  the velocity is below 15. \<open>counts_rep\<close> is the conjunction of the three tests of
  \<open>_handle_state_transition\<close> that guard \<open>metrics.rep_count += 1\<close>.
\<close>

definition commits :: "RepCounter \<Rightarrow> Arm \<Rightarrow> ArmStage \<Rightarrow> ArmStage \<Rightarrow> real \<Rightarrow> real \<Rightarrow> bool" where
  "commits s arm prev_stage target_state current_time velocity \<longleftrightarrow>
     target_state \<noteq> prev_stage \<and> pending_state s arm = Some target_state
     \<and> current_time - pending_state_start s arm \<ge> state_hold_time s \<and> velocity < 15"

definition counts_rep :: "RepCounter \<Rightarrow> ArmStage \<Rightarrow> ArmStage \<Rightarrow> Metrics \<Rightarrow> real \<Rightarrow> bool" where
  "counts_rep s prev_stage new_stage m current_time \<longleftrightarrow>
     prev_stage = UP \<and> (new_stage = MOVING_DOWN \<or> new_stage = DOWN)
     \<and> current_time - last_down_time m \<ge> min_rep_duration s"

abbreviation buffer_after :: "RepCounter \<Rightarrow> Arm \<Rightarrow> real \<Rightarrow> real list" where
  "buffer_after s arm ang \<equiv> deque_append 8 (angle_history s arm) ang"

abbreviation target_of :: "RepCounter \<Rightarrow> real \<Rightarrow> Metrics \<Rightarrow> ArmStage" where
  "target_of s ang m \<equiv>
     determine_target_state s ang (contracted_threshold (calibration s))
       (extended_threshold (calibration s)) (stage m)"

abbreviation commit_call :: "RepCounter \<Rightarrow> Arm \<Rightarrow> real \<Rightarrow> Metrics \<Rightarrow> real \<Rightarrow> bool" where
  "commit_call s arm ang m t \<equiv>
     4 \<le> length (buffer_after s arm ang)
     \<and> commits s arm (stage m) (target_of s ang m) t (velocity_of (buffer_after s arm ang))"

abbreviation count_call :: "RepCounter \<Rightarrow> Arm \<Rightarrow> real \<Rightarrow> Metrics \<Rightarrow> real \<Rightarrow> bool" where
  "count_call s arm ang m t \<equiv>
     commit_call s arm ang m t \<and> counts_rep s (stage m) (target_of s ang m) m t"

section \<open>A worked session\<close>

text \<open>
  Thresholds 40 and 160 with the default minimum duration. The right arm starts DOWN,
  is held at 170 degrees, curls to 30 degrees and comes back to 170 degrees, one sample
  every 0.1 s. After the calls of \<open>example_calls\<close> the arm is UP with DOWN pending since
  0.8 s; the records \<open>example_counter_up\<close> and \<open>example_metrics_up\<close> are that state.
\<close>

definition example_calibration :: Calibration where
  "example_calibration = \<lparr>contracted_threshold = 40, extended_threshold = 160\<rparr>"

definition example_metrics :: Metrics where
  "example_metrics =
     \<lparr>angle = 0, stage = DOWN, rep_count = 0, rep_time = 0, min_rep_time = 0,
      curr_rep_time = 0, last_down_time = 0, feedback = ''''\<rparr>"

definition example_history :: History where
  "example_history = \<lparr>right_feedback_count = 0, left_feedback_count = 0\<rparr>"

definition example_session :: Session where
  "example_session =
     \<lparr>counter = RepCounter_init_default example_calibration,
      arm_metrics = (\<lambda>_. example_metrics),
      history = example_history\<rparr>"

definition example_calls :: "Call list" where
  "example_calls =
     [Process_rep RIGHT 170 0 0, Process_rep RIGHT 170 0.1 0,
      Process_rep RIGHT 170 0.2 0, Process_rep RIGHT 170 0.3 0,
      Process_rep RIGHT 30 0.4 0, Process_rep RIGHT 30 0.5 0,
      Process_rep RIGHT 30 0.6 0, Process_rep RIGHT 30 0.7 0,
      Process_rep RIGHT 170 0.8 0, Process_rep RIGHT 170 0.9 0,
      Process_rep RIGHT 170 1.0 0]"

definition example_counter_up :: RepCounter where
  "example_counter_up =
     \<lparr>calibration = example_calibration,
      min_rep_duration = 0.6,
      angle_history = (\<lambda>_. [])(RIGHT := [170, 30, 30, 30, 30, 170, 170, 170]),
      state_hold_time = 0.15,
      pending_state = (\<lambda>_. None)(RIGHT := Some DOWN),
      pending_state_start = (\<lambda>_. 0)(RIGHT := 0.8),
      rep_start_time = (\<lambda>_. 0)(RIGHT := 0.7),
      last_rep_time = (\<lambda>_. 0),
      current_compliment = (\<lambda>_. ''Maintain Form''),
      hysteresis_margin = 5\<rparr>"

definition example_metrics_up :: Metrics where
  "example_metrics_up =
     \<lparr>angle = 170, stage = UP, rep_count = 0, rep_time = 0, min_rep_time = 0,
      curr_rep_time = 0.3, last_down_time = 0, feedback = ''Maintain Form''\<rparr>"

text \<open>Four samples at 179 degrees on the right arm, 0.1 s apart.\<close>

definition example_safety_calls :: "Call list" where
  "example_safety_calls =
     [Process_rep RIGHT 179 0 0, Process_rep RIGHT 179 0.1 0,
      Process_rep RIGHT 179 0.2 0, Process_rep RIGHT 179 0.3 0]"

text \<open>
  Two full repetitions of the right arm: \<open>example_calls\<close>, the sample at 1.1 s that
  closes the first repetition, a second curl to 30 degrees and the return to 170 degrees
  that closes the second repetition at 1.9 s.
\<close>

definition example_two_reps_calls :: "Call list" where
  "example_two_reps_calls =
     example_calls @
     [Process_rep RIGHT 170 1.1 3,
      Process_rep RIGHT 30 1.2 0, Process_rep RIGHT 30 1.3 0,
      Process_rep RIGHT 30 1.4 0, Process_rep RIGHT 30 1.5 0,
      Process_rep RIGHT 170 1.6 0, Process_rep RIGHT 170 1.7 0,
      Process_rep RIGHT 170 1.8 0, Process_rep RIGHT 170 1.9 3]"

text \<open>
  The same session with \<open>RepCounter(calibration_data, min_rep_duration=0)\<close>.
\<close>

definition example_zero_duration_session :: Session where
  "example_zero_duration_session =
     \<lparr>counter = RepCounter_init example_calibration 0,
      arm_metrics = (\<lambda>_. example_metrics),
      history = example_history\<rparr>"

section \<open>Observations on runs\<close>

text \<open>
  The durations of the repetitions counted for a limb during a sequence of calls, in
  the order they are counted: a call counts a repetition when it raises \<open>rep_count\<close> of
  the limb's metrics, and the duration is the \<open>rep_time\<close> that call records.
\<close>

fun counted_rep_times :: "Session \<Rightarrow> Call list \<Rightarrow> Arm \<Rightarrow> real list" where
  "counted_rep_times ss [] a = []"
| "counted_rep_times ss (c # cs) a =
     (if rep_count (arm_metrics ss a) < rep_count (arm_metrics (step ss c) a)
      then rep_time (arm_metrics (step ss c) a) # counted_rep_times (step ss c) cs a
      else counted_rep_times (step ss c) cs a)"

text \<open>
  Two calls carry the same inputs when they are the same call on the same limb with the
  same angle and timestamp; the draw of the random generator is not an input of the
  caller.
\<close>

fun same_inputs :: "Call \<Rightarrow> Call \<Rightarrow> bool" where
  "same_inputs (Process_rep arm ang t r) (Process_rep arm' ang' t' r') \<longleftrightarrow>
     arm = arm' \<and> ang = ang' \<and> t = t'"
| "same_inputs (Reset_arm arm) (Reset_arm arm') \<longleftrightarrow> arm = arm'"
| "same_inputs _ _ \<longleftrightarrow> False"

text \<open>A session with the stored compliments and the feedback strings blanked.\<close>

definition without_phrases :: "Session \<Rightarrow> Session" where
  "without_phrases ss =
     ss\<lparr>counter := (counter ss)\<lparr>current_compliment := (\<lambda>_. [])\<rparr>,
        arm_metrics := (\<lambda>a. (arm_metrics ss a)\<lparr>feedback := []\<rparr>)\<rparr>"

text \<open>
  The caller's clock: the timestamps of the \<open>process_rep\<close> calls of a sequence, on
  either limb, never decrease, and the first is not before \<open>now\<close>.
\<close>

fun monotonic_from :: "real \<Rightarrow> Call list \<Rightarrow> bool" where
  "monotonic_from now [] \<longleftrightarrow> True"
| "monotonic_from now (Process_rep arm ang t r # cs) \<longleftrightarrow> now \<le> t \<and> monotonic_from t cs"
| "monotonic_from now (Reset_arm arm # cs) \<longleftrightarrow> monotonic_from now cs"

text \<open>
  What the clock keeps true of a limb: \<open>state_hold_time\<close> is positive,
  \<open>last_down_time\<close> is not ahead of the clock, and a pending candidate other than the
  committed stage has been pending since \<open>last_down_time\<close> or later.
\<close>

definition clock_invariant :: "Session \<Rightarrow> real \<Rightarrow> Arm \<Rightarrow> bool" where
  "clock_invariant ss now a \<longleftrightarrow>
     0 < state_hold_time (counter ss)
     \<and> last_down_time (arm_metrics ss a) \<le> now
     \<and> (\<forall>p. pending_state (counter ss) a = Some p \<and> p \<noteq> stage (arm_metrics ss a) \<longrightarrow>
            last_down_time (arm_metrics ss a) \<le> pending_state_start (counter ss) a)"

section \<open>Evaluation of the worked session\<close>

lemmas model_defs =
  process_rep_def deque_append_def velocity_of_def determine_target_state_def
  state_confirmation_def handle_state_transition_def provide_form_feedback_def
  bump_feedback_count_def feedback_count_def compliments_def random_choice_def
  reset_arm_def RepCounter_init_default_def RepCounter_init_def Let_def

lemmas example_defs =
  example_calibration_def example_metrics_def example_history_def example_session_def
  example_calls_def example_counter_up_def example_metrics_up_def

lemma example_reached:
  "run example_session example_calls =
     \<lparr>counter = example_counter_up,
      arm_metrics = (\<lambda>_. example_metrics)(RIGHT := example_metrics_up),
      history = example_history\<rparr>"
  by (simp add: example_defs model_defs)

section \<open>What each operation changes\<close>

subsection \<open>Feedback\<close>

lemma pff_metrics_frame:
  "angle (fst (provide_form_feedback s ang m c e arm h v t)) = angle m"
  "stage (fst (provide_form_feedback s ang m c e arm h v t)) = stage m"
  "rep_count (fst (provide_form_feedback s ang m c e arm h v t)) = rep_count m"
  "rep_time (fst (provide_form_feedback s ang m c e arm h v t)) = rep_time m"
  "min_rep_time (fst (provide_form_feedback s ang m c e arm h v t)) = min_rep_time m"
  "curr_rep_time (fst (provide_form_feedback s ang m c e arm h v t)) = curr_rep_time m"
  "last_down_time (fst (provide_form_feedback s ang m c e arm h v t)) = last_down_time m"
  by (simp_all add: provide_form_feedback_def Let_def)

subsection \<open>Lifecycle\<close>

lemma hst_metrics:
  "angle (snd (handle_state_transition s arm p n m t r)) = angle m"
  "stage (snd (handle_state_transition s arm p n m t r)) = n"
  "feedback (snd (handle_state_transition s arm p n m t r)) = feedback m"
  "rep_count (snd (handle_state_transition s arm p n m t r)) =
     (if counts_rep s p n m t then rep_count m + 1 else rep_count m)"
  "rep_time (snd (handle_state_transition s arm p n m t r)) =
     (if counts_rep s p n m t then t - last_down_time m else rep_time m)"
  "min_rep_time (snd (handle_state_transition s arm p n m t r)) =
     (if counts_rep s p n m t
      then (if min_rep_time m = 0 then t - last_down_time m
            else min (t - last_down_time m) (min_rep_time m))
      else min_rep_time m)"
  "last_down_time (snd (handle_state_transition s arm p n m t r)) =
     (if counts_rep s p n m t then t else last_down_time m)"
  "curr_rep_time (snd (handle_state_transition s arm p n m t r)) =
     (if counts_rep s p n m t then 0 else curr_rep_time m)"
  by (simp_all add: handle_state_transition_def counts_rep_def Let_def)

lemma hst_counter:
  "calibration (fst (handle_state_transition s arm p n m t r)) = calibration s"
  "min_rep_duration (fst (handle_state_transition s arm p n m t r)) = min_rep_duration s"
  "angle_history (fst (handle_state_transition s arm p n m t r)) = angle_history s"
  "state_hold_time (fst (handle_state_transition s arm p n m t r)) = state_hold_time s"
  "pending_state (fst (handle_state_transition s arm p n m t r)) = pending_state s"
  "pending_state_start (fst (handle_state_transition s arm p n m t r)) = pending_state_start s"
  "hysteresis_margin (fst (handle_state_transition s arm p n m t r)) = hysteresis_margin s"
  "rep_start_time (fst (handle_state_transition s arm p n m t r)) =
     (if p = UP then rep_start_time s
      else if n = DOWN then (rep_start_time s)(arm := t)
      else if n = UP \<and> rep_start_time s arm = 0 then (rep_start_time s)(arm := t)
      else rep_start_time s)"
  "last_rep_time (fst (handle_state_transition s arm p n m t r)) =
     (if counts_rep s p n m t then (last_rep_time s)(arm := t) else last_rep_time s)"
  "current_compliment (fst (handle_state_transition s arm p n m t r)) =
     (if counts_rep s p n m t
      then (current_compliment s)(arm := random_choice r compliments)
      else current_compliment s)"
  by (simp_all add: handle_state_transition_def counts_rep_def Let_def)

subsection \<open>Confirmation\<close>

lemma sc_commit:
  "commits s arm p tg t v \<Longrightarrow>
     state_confirmation s arm p tg m t v r = handle_state_transition s arm p tg m t r"
  by (simp add: state_confirmation_def commits_def Let_def)

lemma sc_no_commit:
  "\<not> commits s arm p tg t v \<Longrightarrow>
     state_confirmation s arm p tg m t v r =
       (if tg = p then s\<lparr>pending_state := (pending_state s)(arm := None)\<rparr>
        else if pending_state s arm = Some tg then s
        else s\<lparr>pending_state := (pending_state s)(arm := Some tg),
               pending_state_start := (pending_state_start s)(arm := t)\<rparr>, m)"
  by (auto simp: state_confirmation_def commits_def Let_def)

subsection \<open>One call\<close>

lemma process_rep_short:
  "length (deque_append 8 (angle_history s arm) ang) < 4 \<Longrightarrow>
     process_rep s arm ang m t h r =
       (s\<lparr>angle_history :=
            (angle_history s)(arm := deque_append 8 (angle_history s arm) ang)\<rparr>,
        m\<lparr>angle := ang\<rparr>, h)"
  by (simp add: process_rep_def Let_def)

lemma dts_buffer [simp]:
  "determine_target_state (s\<lparr>angle_history := b\<rparr>) = determine_target_state s"
  by (intro ext) (simp add: determine_target_state_def)

lemma process_rep_full:
  assumes "4 \<le> length (deque_append 8 (angle_history s arm) ang)"
  shows "process_rep s arm ang m t h r =
     (let v = velocity_of (deque_append 8 (angle_history s arm) ang);
          c = contracted_threshold (calibration s);
          e = extended_threshold (calibration s);
          sc = state_confirmation
                 (s\<lparr>angle_history :=
                      (angle_history s)(arm := deque_append 8 (angle_history s arm) ang)\<rparr>)
                 arm (stage m) (determine_target_state s ang c e (stage m))
                 (m\<lparr>angle := ang\<rparr>) t v r;
          m2 = (if stage (snd sc) = UP
                then (snd sc)\<lparr>curr_rep_time := t - rep_start_time (fst sc) arm\<rparr>
                else snd sc);
          fb = provide_form_feedback (fst sc) ang m2 c e arm h v t
      in (fst sc, fst fb, snd fb))"
  using assms by (simp add: process_rep_def Let_def split_beta)

lemma commits_buffer [simp]:
  "commits (s\<lparr>angle_history := b\<rparr>) arm p tg t v = commits s arm p tg t v"
  by (simp add: commits_def)

lemma counts_rep_buffer [simp]:
  "counts_rep (s\<lparr>angle_history := b\<rparr>) p n m t = counts_rep s p n m t"
  "counts_rep s p n (m\<lparr>angle := a\<rparr>) t = counts_rep s p n m t"
  by (simp_all add: counts_rep_def)

lemma sc_metrics:
  "angle (snd (state_confirmation s arm p tg m t v r)) = angle m"
  "feedback (snd (state_confirmation s arm p tg m t v r)) = feedback m"
  "stage (snd (state_confirmation s arm p tg m t v r)) =
     (if commits s arm p tg t v then tg else stage m)"
  "rep_count (snd (state_confirmation s arm p tg m t v r)) =
     (if commits s arm p tg t v \<and> counts_rep s p tg m t then rep_count m + 1 else rep_count m)"
  "rep_time (snd (state_confirmation s arm p tg m t v r)) =
     (if commits s arm p tg t v \<and> counts_rep s p tg m t
      then t - last_down_time m else rep_time m)"
  "min_rep_time (snd (state_confirmation s arm p tg m t v r)) =
     (if commits s arm p tg t v \<and> counts_rep s p tg m t
      then (if min_rep_time m = 0 then t - last_down_time m
            else min (t - last_down_time m) (min_rep_time m))
      else min_rep_time m)"
  "last_down_time (snd (state_confirmation s arm p tg m t v r)) =
     (if commits s arm p tg t v \<and> counts_rep s p tg m t then t else last_down_time m)"
  "curr_rep_time (snd (state_confirmation s arm p tg m t v r)) =
     (if commits s arm p tg t v \<and> counts_rep s p tg m t then 0 else curr_rep_time m)"
  by (cases "commits s arm p tg t v"; simp add: sc_commit sc_no_commit hst_metrics)+

lemma sc_counter:
  "calibration (fst (state_confirmation s arm p tg m t v r)) = calibration s"
  "min_rep_duration (fst (state_confirmation s arm p tg m t v r)) = min_rep_duration s"
  "angle_history (fst (state_confirmation s arm p tg m t v r)) = angle_history s"
  "state_hold_time (fst (state_confirmation s arm p tg m t v r)) = state_hold_time s"
  "hysteresis_margin (fst (state_confirmation s arm p tg m t v r)) = hysteresis_margin s"
  "pending_state (fst (state_confirmation s arm p tg m t v r)) =
     (if tg = p then (pending_state s)(arm := None)
      else if pending_state s arm = Some tg then pending_state s
      else (pending_state s)(arm := Some tg))"
  "pending_state_start (fst (state_confirmation s arm p tg m t v r)) =
     (if tg \<noteq> p \<and> pending_state s arm \<noteq> Some tg
      then (pending_state_start s)(arm := t) else pending_state_start s)"
  "rep_start_time (fst (state_confirmation s arm p tg m t v r)) =
     (if commits s arm p tg t v \<and> p \<noteq> UP \<and> (tg = DOWN \<or> tg = UP \<and> rep_start_time s arm = 0)
      then (rep_start_time s)(arm := t) else rep_start_time s)"
  "last_rep_time (fst (state_confirmation s arm p tg m t v r)) =
     (if commits s arm p tg t v \<and> counts_rep s p tg m t
      then (last_rep_time s)(arm := t) else last_rep_time s)"
  "current_compliment (fst (state_confirmation s arm p tg m t v r)) =
     (if commits s arm p tg t v \<and> counts_rep s p tg m t
      then (current_compliment s)(arm := random_choice r compliments)
      else current_compliment s)"
  by (cases "commits s arm p tg t v";
      auto simp: sc_commit sc_no_commit hst_counter commits_def)+

lemma process_rep_metrics_full:
  assumes "4 \<le> length (buffer_after s arm ang)"
  shows
  "angle (fst (snd (process_rep s arm ang m t h r))) = ang"
  "stage (fst (snd (process_rep s arm ang m t h r))) =
     (if commit_call s arm ang m t then target_of s ang m else stage m)"
  "rep_count (fst (snd (process_rep s arm ang m t h r))) =
     (if count_call s arm ang m t then rep_count m + 1 else rep_count m)"
  "rep_time (fst (snd (process_rep s arm ang m t h r))) =
     (if count_call s arm ang m t then t - last_down_time m else rep_time m)"
  "min_rep_time (fst (snd (process_rep s arm ang m t h r))) =
     (if count_call s arm ang m t
      then (if min_rep_time m = 0 then t - last_down_time m
            else min (t - last_down_time m) (min_rep_time m))
      else min_rep_time m)"
  "last_down_time (fst (snd (process_rep s arm ang m t h r))) =
     (if count_call s arm ang m t then t else last_down_time m)"
  using assms
  by (simp_all add: process_rep_full Let_def pff_metrics_frame sc_metrics)

lemma process_rep_metrics_short:
  assumes "\<not> 4 \<le> length (buffer_after s arm ang)"
  shows
  "angle (fst (snd (process_rep s arm ang m t h r))) = ang"
  "stage (fst (snd (process_rep s arm ang m t h r))) =
     (if commit_call s arm ang m t then target_of s ang m else stage m)"
  "rep_count (fst (snd (process_rep s arm ang m t h r))) =
     (if count_call s arm ang m t then rep_count m + 1 else rep_count m)"
  "rep_time (fst (snd (process_rep s arm ang m t h r))) =
     (if count_call s arm ang m t then t - last_down_time m else rep_time m)"
  "min_rep_time (fst (snd (process_rep s arm ang m t h r))) =
     (if count_call s arm ang m t
      then (if min_rep_time m = 0 then t - last_down_time m
            else min (t - last_down_time m) (min_rep_time m))
      else min_rep_time m)"
  "last_down_time (fst (snd (process_rep s arm ang m t h r))) =
     (if count_call s arm ang m t then t else last_down_time m)"
  using assms
  by (simp_all add: process_rep_short)

lemma process_rep_counter_full:
  assumes "4 \<le> length (buffer_after s arm ang)"
  shows
  "calibration (fst (process_rep s arm ang m t h r)) = calibration s"
  "min_rep_duration (fst (process_rep s arm ang m t h r)) = min_rep_duration s"
  "state_hold_time (fst (process_rep s arm ang m t h r)) = state_hold_time s"
  "hysteresis_margin (fst (process_rep s arm ang m t h r)) = hysteresis_margin s"
  "angle_history (fst (process_rep s arm ang m t h r)) =
     (angle_history s)(arm := buffer_after s arm ang)"
  "pending_state (fst (process_rep s arm ang m t h r)) =
     (if 4 \<le> length (buffer_after s arm ang) then
        (if target_of s ang m = stage m then (pending_state s)(arm := None)
         else if pending_state s arm = Some (target_of s ang m) then pending_state s
         else (pending_state s)(arm := Some (target_of s ang m)))
      else pending_state s)"
  "pending_state_start (fst (process_rep s arm ang m t h r)) =
     (if 4 \<le> length (buffer_after s arm ang) \<and> target_of s ang m \<noteq> stage m
         \<and> pending_state s arm \<noteq> Some (target_of s ang m)
      then (pending_state_start s)(arm := t) else pending_state_start s)"
  "rep_start_time (fst (process_rep s arm ang m t h r)) =
     (if commit_call s arm ang m t \<and> stage m \<noteq> UP
         \<and> (target_of s ang m = DOWN \<or> target_of s ang m = UP \<and> rep_start_time s arm = 0)
      then (rep_start_time s)(arm := t) else rep_start_time s)"
  "last_rep_time (fst (process_rep s arm ang m t h r)) =
     (if count_call s arm ang m t then (last_rep_time s)(arm := t) else last_rep_time s)"
  "current_compliment (fst (process_rep s arm ang m t h r)) =
     (if count_call s arm ang m t
      then (current_compliment s)(arm := random_choice r compliments)
      else current_compliment s)"
  using assms
  by (simp_all add: process_rep_full Let_def sc_counter) blast

lemma process_rep_counter_short:
  assumes "\<not> 4 \<le> length (buffer_after s arm ang)"
  shows
  "calibration (fst (process_rep s arm ang m t h r)) = calibration s"
  "min_rep_duration (fst (process_rep s arm ang m t h r)) = min_rep_duration s"
  "state_hold_time (fst (process_rep s arm ang m t h r)) = state_hold_time s"
  "hysteresis_margin (fst (process_rep s arm ang m t h r)) = hysteresis_margin s"
  "angle_history (fst (process_rep s arm ang m t h r)) =
     (angle_history s)(arm := buffer_after s arm ang)"
  "pending_state (fst (process_rep s arm ang m t h r)) =
     (if 4 \<le> length (buffer_after s arm ang) then
        (if target_of s ang m = stage m then (pending_state s)(arm := None)
         else if pending_state s arm = Some (target_of s ang m) then pending_state s
         else (pending_state s)(arm := Some (target_of s ang m)))
      else pending_state s)"
  "pending_state_start (fst (process_rep s arm ang m t h r)) =
     (if 4 \<le> length (buffer_after s arm ang) \<and> target_of s ang m \<noteq> stage m
         \<and> pending_state s arm \<noteq> Some (target_of s ang m)
      then (pending_state_start s)(arm := t) else pending_state_start s)"
  "rep_start_time (fst (process_rep s arm ang m t h r)) =
     (if commit_call s arm ang m t \<and> stage m \<noteq> UP
         \<and> (target_of s ang m = DOWN \<or> target_of s ang m = UP \<and> rep_start_time s arm = 0)
      then (rep_start_time s)(arm := t) else rep_start_time s)"
  "last_rep_time (fst (process_rep s arm ang m t h r)) =
     (if count_call s arm ang m t then (last_rep_time s)(arm := t) else last_rep_time s)"
  "current_compliment (fst (process_rep s arm ang m t h r)) =
     (if count_call s arm ang m t
      then (current_compliment s)(arm := random_choice r compliments)
      else current_compliment s)"
  using assms
  by (simp_all add: process_rep_short)

lemma process_rep_curr_rep_time:
  assumes "process_rep s arm ang m t h r = (s', m', h')"
  shows "curr_rep_time m' =
     (if 4 \<le> length (buffer_after s arm ang) \<and> stage m' = UP
      then t - rep_start_time s' arm
      else if count_call s arm ang m t then 0 else curr_rep_time m)"
proof (cases "4 \<le> length (buffer_after s arm ang)")
  case True
  from assms have "m' = fst (snd (process_rep s arm ang m t h r))"
    and "s' = fst (process_rep s arm ang m t h r)" by simp_all
  with True show ?thesis
    by (simp add: process_rep_full Let_def pff_metrics_frame sc_metrics)
next
  case False
  with assms show ?thesis by (auto simp: process_rep_short)
qed

lemma target_from_UP:
  "determine_target_state s ang c e UP = UP
   \<or> determine_target_state s ang c e UP = MOVING_DOWN
   \<or> determine_target_state s ang c e UP = DOWN"
  by (simp add: determine_target_state_def Let_def)

lemma step_Process_rep:
  "step ss (Process_rep arm ang t r) =
     \<lparr>counter = fst (process_rep (counter ss) arm ang (arm_metrics ss arm) t (history ss) r),
      arm_metrics = (arm_metrics ss)
        (arm := fst (snd (process_rep (counter ss) arm ang (arm_metrics ss arm) t
                            (history ss) r))),
      history = snd (snd (process_rep (counter ss) arm ang (arm_metrics ss arm) t
                            (history ss) r))\<rparr>"
  by (simp add: split_beta)

lemma process_rep_rep_count_mono:
  "rep_count m \<le> rep_count (fst (snd (process_rep s arm ang m t h r)))"
  by (cases "4 \<le> length (buffer_after s arm ang)")
     (simp_all add: process_rep_metrics_full process_rep_metrics_short)

lemma step_rep_count_mono:
  "rep_count (arm_metrics ss a) \<le> rep_count (arm_metrics (step ss c) a)"
proof (cases c)
  case (Process_rep arm ang t r)
  then show ?thesis
    by (simp del: step.simps add: step_Process_rep process_rep_rep_count_mono)
next
  case (Reset_arm arm)
  then show ?thesis by simp
qed

lemma run_rep_count_mono:
  "rep_count (arm_metrics ss a) \<le> rep_count (arm_metrics (run ss cs) a)"
proof (induction cs arbitrary: ss)
  case Nil
  show ?case by simp
next
  case (Cons c cs)
  have "rep_count (arm_metrics ss a) \<le> rep_count (arm_metrics (step ss c) a)"
    by (rule step_rep_count_mono)
  also have "\<dots> \<le> rep_count (arm_metrics (run (step ss c) cs) a)"
    by (rule Cons.IH)
  finally show ?case by simp
qed

subsection \<open>Feedback of one call\<close>

lemma pff_feedback:
  "feedback (fst (provide_form_feedback s ang m c e arm h v t)) =
     (if ang > 178 then ''Over Extending''
      else if ang < 2 then ''Over Curling''
      else if v < 0.5 \<and> (stage m = MOVING_UP \<or> stage m = UP) \<and> ang > c + 10
        then ''Curl Higher''
      else if v < 0.5 \<and> (stage m = MOVING_DOWN \<or> stage m = DOWN) \<and> ang < e - 10
        then ''Extend Fully''
      else if t - last_rep_time s arm < 2 then current_compliment s arm
      else ''Maintain Form'')"
  by (auto simp: provide_form_feedback_def Let_def)

lemma pff_history:
  "snd (provide_form_feedback s ang m c e arm h v t) =
     (if ang > 178 \<or> ang < 2
         \<or> v < 0.5 \<and> ((stage m = MOVING_UP \<or> stage m = UP) \<and> ang > c + 10
                      \<or> (stage m = MOVING_DOWN \<or> stage m = DOWN) \<and> ang < e - 10)
      then bump_feedback_count arm h else h)"
  by (auto simp: provide_form_feedback_def Let_def)

lemma process_rep_feedback_full:
  assumes "4 \<le> length (buffer_after s arm ang)"
    and "process_rep s arm ang m t h r = (s', m', h')"
  shows "feedback m' =
     (if ang > 178 then ''Over Extending''
      else if ang < 2 then ''Over Curling''
      else if velocity_of (buffer_after s arm ang) < 0.5
              \<and> (stage m' = MOVING_UP \<or> stage m' = UP)
              \<and> ang > contracted_threshold (calibration s) + 10
        then ''Curl Higher''
      else if velocity_of (buffer_after s arm ang) < 0.5
              \<and> (stage m' = MOVING_DOWN \<or> stage m' = DOWN)
              \<and> ang < extended_threshold (calibration s) - 10
        then ''Extend Fully''
      else if t - last_rep_time s' arm < 2 then current_compliment s' arm
      else ''Maintain Form'')"
    and "h' =
     (if ang > 178 \<or> ang < 2
         \<or> velocity_of (buffer_after s arm ang) < 0.5
           \<and> ((stage m' = MOVING_UP \<or> stage m' = UP)
                 \<and> ang > contracted_threshold (calibration s) + 10
              \<or> (stage m' = MOVING_DOWN \<or> stage m' = DOWN)
                 \<and> ang < extended_threshold (calibration s) - 10)
      then bump_feedback_count arm h else h)"
proof -
  let ?v = "velocity_of (buffer_after s arm ang)"
  let ?c = "contracted_threshold (calibration s)"
  let ?e = "extended_threshold (calibration s)"
  define sc where "sc = state_confirmation
       (s\<lparr>angle_history := (angle_history s)(arm := buffer_after s arm ang)\<rparr>)
       arm (stage m) (target_of s ang m) (m\<lparr>angle := ang\<rparr>) t ?v r"
  define m2 where "m2 = (if stage (snd sc) = UP
       then (snd sc)\<lparr>curr_rep_time := t - rep_start_time (fst sc) arm\<rparr> else snd sc)"
  have P: "process_rep s arm ang m t h r =
      (fst sc, fst (provide_form_feedback (fst sc) ang m2 ?c ?e arm h ?v t),
       snd (provide_form_feedback (fst sc) ang m2 ?c ?e arm h ?v t))"
    using assms(1) by (simp add: process_rep_full Let_def sc_def m2_def)
  from assms(2) [unfolded P] have s': "s' = fst sc"
    and m': "m' = fst (provide_form_feedback (fst sc) ang m2 ?c ?e arm h ?v t)"
    and h': "h' = snd (provide_form_feedback (fst sc) ang m2 ?c ?e arm h ?v t)"
    by auto
  have st: "stage m' = stage m2" by (simp add: m' pff_metrics_frame)
  show "feedback m' =
     (if ang > 178 then ''Over Extending''
      else if ang < 2 then ''Over Curling''
      else if ?v < 0.5 \<and> (stage m' = MOVING_UP \<or> stage m' = UP) \<and> ang > ?c + 10
        then ''Curl Higher''
      else if ?v < 0.5 \<and> (stage m' = MOVING_DOWN \<or> stage m' = DOWN) \<and> ang < ?e - 10
        then ''Extend Fully''
      else if t - last_rep_time s' arm < 2 then current_compliment s' arm
      else ''Maintain Form'')"
    unfolding st unfolding m' s' by (rule pff_feedback)
  show "h' =
     (if ang > 178 \<or> ang < 2
         \<or> ?v < 0.5 \<and> ((stage m' = MOVING_UP \<or> stage m' = UP) \<and> ang > ?c + 10
                      \<or> (stage m' = MOVING_DOWN \<or> stage m' = DOWN) \<and> ang < ?e - 10)
      then bump_feedback_count arm h else h)"
    unfolding st unfolding h' by (rule pff_history)
qed

lemma process_rep_projections:
  assumes "process_rep s arm ang m t h r = (s', m', h')"
  shows "s' = fst (process_rep s arm ang m t h r)"
    and "m' = fst (snd (process_rep s arm ang m t h r))"
    and "h' = snd (snd (process_rep s arm ang m t h r))"
  using assms by simp_all

subsection \<open>The buffer\<close>

lemma length_deque_append:
  "length xs \<le> n \<Longrightarrow> length (deque_append n xs x) \<le> n"
  by (simp add: deque_append_def Let_def)

lemma deque_append_not_full:
  "length xs < n \<Longrightarrow> deque_append n xs x = xs @ [x]"
  by (simp add: deque_append_def Let_def)

lemma deque_append_full:
  "length xs = n \<Longrightarrow> 0 < n \<Longrightarrow> deque_append n xs x = tl xs @ [x]"
  by (cases xs) (simp_all add: deque_append_def Let_def)

lemma deque_append_newest:
  assumes "0 < n"
  shows "deque_append n xs x ! (length (deque_append n xs x) - Suc 0) = x"
proof -
  have ne: "deque_append n xs x \<noteq> []"
    using assms by (cases xs) (auto simp: deque_append_def Let_def)
  have "last (deque_append n xs x) = x"
    using assms by (cases xs) (auto simp: deque_append_def Let_def)
  with ne show ?thesis by (simp add: last_conv_nth)
qed

lemma process_rep_angle_history:
  "angle_history (fst (process_rep s arm ang m t h r)) =
     (angle_history s)(arm := buffer_after s arm ang)"
  by (cases "4 \<le> length (buffer_after s arm ang)")
     (simp_all add: process_rep_counter_full process_rep_counter_short)

lemma step_buffer_bound:
  assumes "\<forall>a. length (angle_history (counter ss) a) \<le> 8"
  shows "\<forall>a. length (angle_history (counter (step ss c)) a) \<le> 8"
proof (cases c)
  case (Process_rep arm ang t r)
  with assms show ?thesis
    by (simp del: step.simps
        add: step_Process_rep process_rep_angle_history length_deque_append)
next
  case (Reset_arm arm)
  with assms show ?thesis by (simp add: reset_arm_def)
qed

lemma run_buffer_bound:
  "\<forall>a. length (angle_history (counter ss) a) \<le> 8 \<Longrightarrow>
   \<forall>a. length (angle_history (counter (run ss cs)) a) \<le> 8"
proof (induction cs arbitrary: ss)
  case Nil
  then show ?case by simp
next
  case (Cons c cs)
  from Cons.prems have "\<forall>a. length (angle_history (counter (step ss c)) a) \<le> 8"
    by (rule step_buffer_bound)
  then have "\<forall>a. length (angle_history (counter (run (step ss c) cs)) a) \<le> 8"
    by (rule Cons.IH)
  then show ?case by simp
qed

subsection \<open>The history counters\<close>

lemma feedback_count_bump:
  "feedback_count a (bump_feedback_count arm h) =
     (if a = arm then feedback_count a h + 1 else feedback_count a h)"
  by (cases a; cases arm) (simp_all add: feedback_count_def bump_feedback_count_def)

lemma process_rep_history:
  "snd (snd (process_rep s arm ang m t h r)) = h
   \<or> snd (snd (process_rep s arm ang m t h r)) = bump_feedback_count arm h"
proof (cases "4 \<le> length (buffer_after s arm ang)")
  case True
  show ?thesis
    using process_rep_feedback_full(2) [OF True, of m t h r
        "fst (process_rep s arm ang m t h r)" "fst (snd (process_rep s arm ang m t h r))"
        "snd (snd (process_rep s arm ang m t h r))"]
    by (auto split: if_splits)
next
  case False
  then show ?thesis by (simp add: process_rep_short)
qed

lemma step_feedback_count_mono:
  "feedback_count a (history ss) \<le> feedback_count a (history (step ss c))"
proof (cases c)
  case (Process_rep arm ang t r)
  with process_rep_history [of "counter ss" arm ang "arm_metrics ss arm" t "history ss" r]
  show ?thesis
    by (auto simp del: step.simps simp add: step_Process_rep feedback_count_bump)
next
  case (Reset_arm arm)
  then show ?thesis by simp
qed

lemma run_feedback_count_mono:
  "feedback_count a (history ss) \<le> feedback_count a (history (run ss cs))"
proof (induction cs arbitrary: ss)
  case Nil
  show ?case by simp
next
  case (Cons c cs)
  have "feedback_count a (history ss) \<le> feedback_count a (history (step ss c))"
    by (rule step_feedback_count_mono)
  also have "\<dots> \<le> feedback_count a (history (run (step ss c) cs))"
    by (rule Cons.IH)
  finally show ?case by simp
qed

subsection \<open>The fastest repetition\<close>

lemma step_min_rep_duration:
  "min_rep_duration (counter (step ss c)) = min_rep_duration (counter ss)"
proof (cases c)
  case (Process_rep arm ang t r)
  then show ?thesis
    by (cases "4 \<le> length (buffer_after (counter ss) arm ang)")
       (simp_all del: step.simps
          add: step_Process_rep process_rep_counter_full process_rep_counter_short)
next
  case (Reset_arm arm)
  then show ?thesis by (simp add: reset_arm_def)
qed

lemma process_rep_min_rep_time:
  "(rep_count (fst (snd (process_rep s arm ang m t h r))) = rep_count m
      \<and> min_rep_time (fst (snd (process_rep s arm ang m t h r))) = min_rep_time m)
   \<or> (rep_count (fst (snd (process_rep s arm ang m t h r))) = rep_count m + 1
      \<and> min_rep_duration s \<le> rep_time (fst (snd (process_rep s arm ang m t h r)))
      \<and> min_rep_time (fst (snd (process_rep s arm ang m t h r))) =
          (if min_rep_time m = 0 then rep_time (fst (snd (process_rep s arm ang m t h r)))
           else min (rep_time (fst (snd (process_rep s arm ang m t h r))))
                  (min_rep_time m)))"
proof (cases "4 \<le> length (buffer_after s arm ang)")
  case True
  note f = process_rep_metrics_full [OF True, of m t h r]
  show ?thesis
  proof (cases "commits s arm (stage m) (target_of s ang m) t
                  (velocity_of (buffer_after s arm ang))
                \<and> counts_rep s (stage m) (target_of s ang m) m t")
    case c: True
    then have "min_rep_duration s \<le> t - last_down_time m"
      by (simp add: counts_rep_def)
    with c True show ?thesis by (simp add: f)
  next
    case c: False
    with True show ?thesis by (auto simp: f)
  qed
next
  case False
  then show ?thesis
    by (simp add: process_rep_metrics_short)
qed

lemma step_min_rep_time:
  "(rep_count (arm_metrics (step ss c) a) = rep_count (arm_metrics ss a)
      \<and> min_rep_time (arm_metrics (step ss c) a) = min_rep_time (arm_metrics ss a))
   \<or> (rep_count (arm_metrics (step ss c) a) = rep_count (arm_metrics ss a) + 1
      \<and> min_rep_duration (counter ss) \<le> rep_time (arm_metrics (step ss c) a)
      \<and> min_rep_time (arm_metrics (step ss c) a) =
          (if min_rep_time (arm_metrics ss a) = 0 then rep_time (arm_metrics (step ss c) a)
           else min (rep_time (arm_metrics (step ss c) a))
                  (min_rep_time (arm_metrics ss a))))"
proof (cases c)
  case (Process_rep arm ang t r)
  show ?thesis
  proof (cases "a = arm")
    case True
    with Process_rep
      process_rep_min_rep_time [of "counter ss" arm ang "arm_metrics ss arm" t "history ss" r]
    show ?thesis by (auto simp del: step.simps simp add: step_Process_rep)
  next
    case False
    with Process_rep show ?thesis by (simp del: step.simps add: step_Process_rep)
  qed
next
  case (Reset_arm arm)
  then show ?thesis by simp
qed

lemma process_rep_clock:
  assumes hold: "0 < state_hold_time s" and ld: "last_down_time m \<le> t"
    and pend: "\<forall>p. pending_state s arm = Some p \<and> p \<noteq> stage m \<longrightarrow>
                 last_down_time m \<le> pending_state_start s arm"
  shows "last_down_time (fst (snd (process_rep s arm ang m t h r))) \<le> t"
    and "\<forall>p. pending_state (fst (process_rep s arm ang m t h r)) arm = Some p
             \<and> p \<noteq> stage (fst (snd (process_rep s arm ang m t h r))) \<longrightarrow>
           last_down_time (fst (snd (process_rep s arm ang m t h r)))
             \<le> pending_state_start (fst (process_rep s arm ang m t h r)) arm"
    and "rep_count (fst (snd (process_rep s arm ang m t h r))) \<noteq> rep_count m \<longrightarrow>
           0 < rep_time (fst (snd (process_rep s arm ang m t h r)))"
proof -
  let ?P = "process_rep s arm ang m t h r"
  show "last_down_time (fst (snd ?P)) \<le> t"
    using ld
    by (cases "4 \<le> length (buffer_after s arm ang)")
       (simp_all add: process_rep_metrics_full process_rep_metrics_short)
  show "rep_count (fst (snd ?P)) \<noteq> rep_count m \<longrightarrow> 0 < rep_time (fst (snd ?P))"
  proof (cases "4 \<le> length (buffer_after s arm ang)")
    case True
    show ?thesis
    proof (cases "count_call s arm ang m t")
      case c: True
      then have tg: "target_of s ang m \<noteq> stage m"
        and pe: "pending_state s arm = Some (target_of s ang m)"
        and ho: "state_hold_time s \<le> t - pending_state_start s arm"
        by (simp_all add: commits_def)
      from pend pe tg have "last_down_time m \<le> pending_state_start s arm" by blast
      with ho hold have "0 < t - last_down_time m" by linarith
      with c True show ?thesis by (simp add: process_rep_metrics_full [OF True])
    next
      case False
      with True show ?thesis by (auto simp: process_rep_metrics_full [OF True])
    qed
  next
    case False
    then show ?thesis by (simp add: process_rep_metrics_short)
  qed
  show "\<forall>p. pending_state (fst ?P) arm = Some p \<and> p \<noteq> stage (fst (snd ?P)) \<longrightarrow>
           last_down_time (fst (snd ?P)) \<le> pending_state_start (fst ?P) arm"
  proof (cases "4 \<le> length (buffer_after s arm ang)")
    case True
    note fm = process_rep_metrics_full [OF True, of m t h r]
    note fc = process_rep_counter_full [OF True, of m t h r]
    show ?thesis
    proof (cases "target_of s ang m = stage m")
      case same: True
      with True show ?thesis by (simp add: fm fc commits_def)
    next
      case diff: False
      show ?thesis
      proof (cases "pending_state s arm = Some (target_of s ang m)")
        case cand: True
        show ?thesis
        proof (cases "commit_call s arm ang m t")
          case c: True
          with True cand diff show ?thesis by (simp add: fm fc)
        next
          case nc: False
          with True have "\<not> count_call s arm ang m t" by simp
          with True cand diff nc pend show ?thesis by (simp add: fm fc)
        qed
      next
        case fresh: False
        then have nc: "\<not> commit_call s arm ang m t" by (simp add: commits_def)
        with True fresh diff ld show ?thesis by (simp add: fm fc)
      qed
    qed
  next
    case False
    with pend show ?thesis
      by (simp add: process_rep_metrics_short process_rep_counter_short)
  qed
qed


lemma process_rep_state_hold_time:
  "state_hold_time (fst (process_rep s arm ang m t h r)) = state_hold_time s"
  by (cases "4 \<le> length (buffer_after s arm ang)")
     (simp_all add: process_rep_counter_full process_rep_counter_short)

lemma process_rep_other_pending:
  assumes "a \<noteq> arm"
  shows "pending_state (fst (process_rep s arm ang m t h r)) a = pending_state s a"
    and "pending_state_start (fst (process_rep s arm ang m t h r)) a
           = pending_state_start s a"
  using assms
  by (cases "4 \<le> length (buffer_after s arm ang)";
      simp add: process_rep_counter_full process_rep_counter_short)+

lemma step_clock:
  assumes inv: "clock_invariant ss now a" and mono: "monotonic_from now (c # cs)"
  shows "\<exists>now'. clock_invariant (step ss c) now' a \<and> monotonic_from now' cs
           \<and> (rep_count (arm_metrics (step ss c) a) \<noteq> rep_count (arm_metrics ss a) \<longrightarrow>
                0 < rep_time (arm_metrics (step ss c) a))"
proof (cases c)
  case (Process_rep arm ang t r)
  with mono have le: "now \<le> t" and rest: "monotonic_from t cs" by simp_all
  from inv have hold: "0 < state_hold_time (counter ss)"
    and ld: "last_down_time (arm_metrics ss a) \<le> now"
    and pend: "\<forall>p. pending_state (counter ss) a = Some p \<and> p \<noteq> stage (arm_metrics ss a) \<longrightarrow>
                 last_down_time (arm_metrics ss a) \<le> pending_state_start (counter ss) a"
    by (simp_all add: clock_invariant_def)
  from ld le have ld': "last_down_time (arm_metrics ss a) \<le> t" by simp
  have "clock_invariant (step ss c) t a
      \<and> (rep_count (arm_metrics (step ss c) a) \<noteq> rep_count (arm_metrics ss a) \<longrightarrow>
            0 < rep_time (arm_metrics (step ss c) a))"
  proof (cases "a = arm")
    case True
    note k = process_rep_clock [OF hold ld' [unfolded True] pend [unfolded True],
        of ang "history ss" r]
    from hold k show ?thesis
      unfolding Process_rep True clock_invariant_def step_Process_rep
      by (simp add: process_rep_state_hold_time)
  next
    case False
    with hold ld' pend show ?thesis
      unfolding Process_rep clock_invariant_def step_Process_rep
      by (simp add: process_rep_state_hold_time process_rep_other_pending)
  qed
  with rest show ?thesis by blast
next
  case (Reset_arm arm)
  with mono have rest: "monotonic_from now cs" by simp
  from inv have "clock_invariant (step ss c) now a"
    unfolding Reset_arm clock_invariant_def by (simp add: reset_arm_def)
  moreover have "rep_count (arm_metrics (step ss c) a) = rep_count (arm_metrics ss a)"
    unfolding Reset_arm by simp
  ultimately show ?thesis using rest by blast
qed

lemma run_min_rep_time_clock:
  assumes "clock_invariant ss now a"
    and "monotonic_from now cs"
    and "\<forall>x \<in> set acc. 0 < x"
    and "min_rep_time (arm_metrics ss a) = (if acc = [] then 0 else Min (set acc))"
  shows "min_rep_time (arm_metrics (run ss cs) a) =
     (if acc @ counted_rep_times ss cs a = [] then 0
      else Min (set (acc @ counted_rep_times ss cs a)))"
  using assms
proof (induction cs arbitrary: ss acc now)
  case Nil
  then show ?case by simp
next
  case (Cons c cs)
  let ?ss = "step ss c"
  from step_clock [OF Cons.prems(1) Cons.prems(2)]
  obtain now' where inv: "clock_invariant ?ss now' a"
    and mono: "monotonic_from now' cs"
    and pos: "rep_count (arm_metrics ?ss a) \<noteq> rep_count (arm_metrics ss a) \<longrightarrow>
                0 < rep_time (arm_metrics ?ss a)"
    by blast
  from step_min_rep_time [of ss c a] show ?case
  proof (elim disjE conjE)
    assume same: "rep_count (arm_metrics ?ss a) = rep_count (arm_metrics ss a)"
      and keep: "min_rep_time (arm_metrics ?ss a) = min_rep_time (arm_metrics ss a)"
    from keep Cons.prems(4)
    have "min_rep_time (arm_metrics ?ss a) = (if acc = [] then 0 else Min (set acc))"
      by simp
    from Cons.IH [OF inv mono Cons.prems(3) this] same show ?thesis by simp
  next
    assume more: "rep_count (arm_metrics ?ss a) = rep_count (arm_metrics ss a) + 1"
      and new: "min_rep_time (arm_metrics ?ss a) =
          (if min_rep_time (arm_metrics ss a) = 0 then rep_time (arm_metrics ?ss a)
           else min (rep_time (arm_metrics ?ss a)) (min_rep_time (arm_metrics ss a)))"
    let ?rt = "rep_time (arm_metrics ?ss a)"
    from more pos have pos': "0 < ?rt" by simp
    with Cons.prems(3) have all: "\<forall>x \<in> set (acc @ [?rt]). 0 < x" by simp
    have zero: "min_rep_time (arm_metrics ss a) = 0 \<longleftrightarrow> acc = []"
    proof (cases "acc = []")
      case True
      with Cons.prems(4) show ?thesis by simp
    next
      case False
      then have "Min (set acc) \<in> set acc" by simp
      with Cons.prems(3) have "0 < Min (set acc)" by blast
      then have "Min (set acc) \<noteq> 0" by linarith
      with False Cons.prems(4) show ?thesis by simp
    qed
    have "min_rep_time (arm_metrics ?ss a) = Min (set (acc @ [?rt]))"
    proof (cases "acc = []")
      case True
      with new zero show ?thesis by simp
    next
      case False
      with zero have nz: "min_rep_time (arm_metrics ss a) \<noteq> 0" by simp
      from Cons.prems(4) False
      have mu: "min_rep_time (arm_metrics ss a) = Min (set acc)" by simp
      from new nz have "min_rep_time (arm_metrics ?ss a) = min ?rt (Min (set acc))"
        by (simp add: mu)
      also from False have "\<dots> = Min (set (acc @ [?rt]))" by simp
      finally show ?thesis .
    qed
    then have "min_rep_time (arm_metrics ?ss a) =
        (if acc @ [?rt] = [] then 0 else Min (set (acc @ [?rt])))" by simp
    from Cons.IH [OF inv mono all this] more show ?thesis by simp
  qed
qed

subsection \<open>Independence from the phrases and the draw\<close>

lemma metrics_without_feedback_eq:
  "(m :: Metrics)\<lparr>feedback := f\<rparr> = m'\<lparr>feedback := f\<rparr> \<longleftrightarrow>
     angle m = angle m' \<and> stage m = stage m' \<and> rep_count m = rep_count m'
     \<and> rep_time m = rep_time m' \<and> min_rep_time m = min_rep_time m'
     \<and> curr_rep_time m = curr_rep_time m' \<and> last_down_time m = last_down_time m'"
  by (cases m; cases m') simp

lemma counter_without_compliment_eq:
  "(s :: RepCounter)\<lparr>current_compliment := cc\<rparr> = s'\<lparr>current_compliment := cc\<rparr> \<longleftrightarrow>
     calibration s = calibration s' \<and> min_rep_duration s = min_rep_duration s'
     \<and> angle_history s = angle_history s' \<and> state_hold_time s = state_hold_time s'
     \<and> pending_state s = pending_state s' \<and> pending_state_start s = pending_state_start s'
     \<and> rep_start_time s = rep_start_time s' \<and> last_rep_time s = last_rep_time s'
     \<and> hysteresis_margin s = hysteresis_margin s'"
  by (cases s; cases s') auto

lemma dts_compliment [simp]:
  "determine_target_state (s\<lparr>current_compliment := cc\<rparr>) = determine_target_state s"
  by (intro ext) (simp add: determine_target_state_def)

lemma commits_compliment [simp]:
  "commits (s\<lparr>current_compliment := cc\<rparr>) arm p tg t v = commits s arm p tg t v"
  by (simp add: commits_def)

lemma counts_rep_compliment [simp]:
  "counts_rep (s\<lparr>current_compliment := cc\<rparr>) p n m t = counts_rep s p n m t"
  "counts_rep s p n (m\<lparr>feedback := f\<rparr>) t = counts_rep s p n m t"
  by (simp_all add: counts_rep_def)

lemma process_rep_curr_rep_time_full:
  assumes "4 \<le> length (buffer_after s arm ang)"
  shows "curr_rep_time (fst (snd (process_rep s arm ang m t h r))) =
     (if stage (fst (snd (process_rep s arm ang m t h r))) = UP
      then t - rep_start_time (fst (process_rep s arm ang m t h r)) arm
      else if count_call s arm ang m t then 0 else curr_rep_time m)"
  using process_rep_curr_rep_time [of s arm ang m t h r
      "fst (process_rep s arm ang m t h r)" "fst (snd (process_rep s arm ang m t h r))"
      "snd (snd (process_rep s arm ang m t h r))"] assms
  by simp

lemma process_rep_history_full:
  assumes "4 \<le> length (buffer_after s arm ang)"
  shows "snd (snd (process_rep s arm ang m t h r)) =
     (if ang > 178 \<or> ang < 2
         \<or> velocity_of (buffer_after s arm ang) < 0.5
           \<and> ((stage (fst (snd (process_rep s arm ang m t h r))) = MOVING_UP
                 \<or> stage (fst (snd (process_rep s arm ang m t h r))) = UP)
                 \<and> ang > contracted_threshold (calibration s) + 10
              \<or> (stage (fst (snd (process_rep s arm ang m t h r))) = MOVING_DOWN
                 \<or> stage (fst (snd (process_rep s arm ang m t h r))) = DOWN)
                 \<and> ang < extended_threshold (calibration s) - 10)
      then bump_feedback_count arm h else h)"
  using process_rep_feedback_full(2) [OF assms, of m t h r
      "fst (process_rep s arm ang m t h r)" "fst (snd (process_rep s arm ang m t h r))"
      "snd (snd (process_rep s arm ang m t h r))"]
  by simp

lemma process_rep_phrase_free:
  "(fst (process_rep (s\<lparr>current_compliment := cc\<rparr>) arm ang (m\<lparr>feedback := f\<rparr>) t h r'))
       \<lparr>current_compliment := cc'\<rparr>
     = (fst (process_rep s arm ang m t h r))\<lparr>current_compliment := cc'\<rparr>"
  "(fst (snd (process_rep (s\<lparr>current_compliment := cc\<rparr>) arm ang (m\<lparr>feedback := f\<rparr>) t h r')))
       \<lparr>feedback := f'\<rparr>
     = (fst (snd (process_rep s arm ang m t h r)))\<lparr>feedback := f'\<rparr>"
  "snd (snd (process_rep (s\<lparr>current_compliment := cc\<rparr>) arm ang (m\<lparr>feedback := f\<rparr>) t h r'))
     = snd (snd (process_rep s arm ang m t h r))"
proof -
  let ?s = "s\<lparr>current_compliment := cc\<rparr>"
  let ?m = "m\<lparr>feedback := f\<rparr>"
  show "(fst (process_rep ?s arm ang ?m t h r'))\<lparr>current_compliment := cc'\<rparr>
     = (fst (process_rep s arm ang m t h r))\<lparr>current_compliment := cc'\<rparr>"
  proof (cases "4 \<le> length (buffer_after s arm ang)")
    case True
    then have True': "4 \<le> length (buffer_after ?s arm ang)" by simp
    show ?thesis
      unfolding counter_without_compliment_eq
      by (simp add: process_rep_counter_full [OF True] process_rep_counter_full [OF True']
          split del: if_split cong: if_cong)
  next
    case False
    then have False': "\<not> 4 \<le> length (buffer_after ?s arm ang)" by simp
    from False False' show ?thesis
      by (simp add: process_rep_short)
  qed
  show "(fst (snd (process_rep ?s arm ang ?m t h r')))\<lparr>feedback := f'\<rparr>
     = (fst (snd (process_rep s arm ang m t h r)))\<lparr>feedback := f'\<rparr>"
  proof (cases "4 \<le> length (buffer_after s arm ang)")
    case True
    then have True': "4 \<le> length (buffer_after ?s arm ang)" by simp
    show ?thesis
      unfolding metrics_without_feedback_eq
      by (simp add: process_rep_curr_rep_time_full [OF True]
          process_rep_curr_rep_time_full [OF True']
          process_rep_metrics_full [OF True] process_rep_metrics_full [OF True']
          process_rep_counter_full [OF True] process_rep_counter_full [OF True']
          split del: if_split cong: if_cong)
  next
    case False
    then have False': "\<not> 4 \<le> length (buffer_after ?s arm ang)" by simp
    from False False' show ?thesis
      by (simp add: process_rep_short)
  qed
  show "snd (snd (process_rep ?s arm ang ?m t h r'))
     = snd (snd (process_rep s arm ang m t h r))"
  proof (cases "4 \<le> length (buffer_after s arm ang)")
    case True
    then have True': "4 \<le> length (buffer_after ?s arm ang)" by simp
    show ?thesis
      by (simp add: process_rep_history_full [OF True] process_rep_history_full [OF True']
          process_rep_metrics_full [OF True] process_rep_metrics_full [OF True']
          split del: if_split cong: if_cong)
  next
    case False
    then have False': "\<not> 4 \<le> length (buffer_after ?s arm ang)" by simp
    from False False' show ?thesis
      by (simp add: process_rep_short)
  qed
qed

lemma without_phrases_eq:
  "without_phrases ss = without_phrases ss' \<longleftrightarrow>
     history ss = history ss'
     \<and> (counter ss)\<lparr>current_compliment := (\<lambda>_. [])\<rparr>
         = (counter ss')\<lparr>current_compliment := (\<lambda>_. [])\<rparr>
     \<and> (\<forall>a. (arm_metrics ss a)\<lparr>feedback := []\<rparr> = (arm_metrics ss' a)\<lparr>feedback := []\<rparr>)"
  by (cases ss; cases ss') (auto simp: without_phrases_def fun_eq_iff)

lemma reset_arm_compliment:
  "(reset_arm s arm)\<lparr>current_compliment := cc\<rparr>
     = reset_arm (s\<lparr>current_compliment := cc\<rparr>) arm"
  by (simp add: reset_arm_def)

lemma step_without_phrases:
  assumes "same_inputs c c'" and "without_phrases ss = without_phrases ss'"
  shows "without_phrases (step ss c) = without_phrases (step ss' c')"
proof (cases c)
  case c: (Process_rep arm ang t r)
  with assms(1) obtain r' where c': "c' = Process_rep arm ang t r'"
    by (cases c') auto
  let ?E = "\<lambda>_::Arm. [] :: string"
  from assms(2) have h: "history ss = history ss'"
    and s: "(counter ss)\<lparr>current_compliment := ?E\<rparr>
              = (counter ss')\<lparr>current_compliment := ?E\<rparr>"
    and m: "\<And>a. (arm_metrics ss a)\<lparr>feedback := []\<rparr> = (arm_metrics ss' a)\<lparr>feedback := []\<rparr>"
    by (simp_all add: without_phrases_eq)
  let ?P = "process_rep (counter ss) arm ang (arm_metrics ss arm) t (history ss) r"
  let ?P' = "process_rep (counter ss') arm ang (arm_metrics ss' arm) t (history ss') r'"
  let ?N = "process_rep ((counter ss)\<lparr>current_compliment := ?E\<rparr>) arm ang
              ((arm_metrics ss arm)\<lparr>feedback := []\<rparr>) t (history ss) 0"
  let ?N' = "process_rep ((counter ss')\<lparr>current_compliment := ?E\<rparr>) arm ang
              ((arm_metrics ss' arm)\<lparr>feedback := []\<rparr>) t (history ss') 0"
  have N: "?N = ?N'" by (simp only: h s m)
  have 1: "(fst ?P)\<lparr>current_compliment := ?E\<rparr> = (fst ?P')\<lparr>current_compliment := ?E\<rparr>"
  proof -
    have "(fst ?P)\<lparr>current_compliment := ?E\<rparr> = (fst ?N)\<lparr>current_compliment := ?E\<rparr>"
      by (rule process_rep_phrase_free(1) [symmetric])
    also have "\<dots> = (fst ?N')\<lparr>current_compliment := ?E\<rparr>" by (simp only: N)
    also have "\<dots> = (fst ?P')\<lparr>current_compliment := ?E\<rparr>"
      by (rule process_rep_phrase_free(1))
    finally show ?thesis .
  qed
  have 2: "(fst (snd ?P))\<lparr>feedback := []\<rparr> = (fst (snd ?P'))\<lparr>feedback := []\<rparr>"
  proof -
    have "(fst (snd ?P))\<lparr>feedback := []\<rparr> = (fst (snd ?N))\<lparr>feedback := []\<rparr>"
      by (rule process_rep_phrase_free(2) [symmetric])
    also have "\<dots> = (fst (snd ?N'))\<lparr>feedback := []\<rparr>" by (simp only: N)
    also have "\<dots> = (fst (snd ?P'))\<lparr>feedback := []\<rparr>"
      by (rule process_rep_phrase_free(2))
    finally show ?thesis .
  qed
  have 3: "snd (snd ?P) = snd (snd ?P')"
  proof -
    have "snd (snd ?P) = snd (snd ?N)"
      by (rule process_rep_phrase_free(3) [symmetric])
    also have "\<dots> = snd (snd ?N')" by (simp only: N)
    also have "\<dots> = snd (snd ?P')"
      by (rule process_rep_phrase_free(3))
    finally show ?thesis .
  qed
  show ?thesis
    unfolding c c' step_Process_rep without_phrases_eq
    using 1 2 3 m by simp
next
  case c: (Reset_arm arm)
  with assms(1) have c': "c' = Reset_arm arm"
    by (cases c') auto
  from assms(2) show ?thesis
    unfolding c c' without_phrases_eq
    by (simp add: reset_arm_compliment)
qed

lemma run_without_phrases:
  assumes "list_all2 same_inputs cs cs'"
  shows "without_phrases ss = without_phrases ss' \<Longrightarrow>
         without_phrases (run ss cs) = without_phrases (run ss' cs')"
  using assms
proof (induction cs cs' arbitrary: ss ss' rule: list_all2_induct)
  case Nil
  then show ?case by simp
next
  case (Cons c cs c' cs')
  from Cons.hyps(1) Cons.prems
  have "without_phrases (step ss c) = without_phrases (step ss' c')"
    by (rule step_without_phrases)
  then have "without_phrases (run (step ss c) cs) = without_phrases (run (step ss' c') cs')"
    by (rule Cons.IH)
  then show ?case by simp
qed

lemma step_feedback_chain:
  assumes "4 \<le> length (angle_history (counter (step ss (Process_rep arm ang t r))) arm)"
  shows "feedback (arm_metrics (step ss (Process_rep arm ang t r)) arm) =
     (if ang > 178 then ''Over Extending''
      else if ang < 2 then ''Over Curling''
      else if velocity_of (angle_history (counter (step ss (Process_rep arm ang t r))) arm) < 0.5
              \<and> (stage (arm_metrics (step ss (Process_rep arm ang t r)) arm) = MOVING_UP \<or> stage (arm_metrics (step ss (Process_rep arm ang t r)) arm) = UP)
              \<and> ang > contracted_threshold (calibration (counter (step ss (Process_rep arm ang t r)))) + 10
        then ''Curl Higher''
      else if velocity_of (angle_history (counter (step ss (Process_rep arm ang t r))) arm) < 0.5
              \<and> (stage (arm_metrics (step ss (Process_rep arm ang t r)) arm) = MOVING_DOWN \<or> stage (arm_metrics (step ss (Process_rep arm ang t r)) arm) = DOWN)
              \<and> ang < extended_threshold (calibration (counter (step ss (Process_rep arm ang t r)))) - 10
        then ''Extend Fully''
      else if t - last_rep_time (counter (step ss (Process_rep arm ang t r))) arm < 2 then current_compliment (counter (step ss (Process_rep arm ang t r))) arm
      else ''Maintain Form'')"
proof -
  let ?P = "process_rep (counter ss) arm ang (arm_metrics ss arm) t (history ss) r"
  have b: "angle_history (fst ?P) arm = buffer_after (counter ss) arm ang"
    by (simp add: process_rep_angle_history)
  from assms have len: "4 \<le> length (buffer_after (counter ss) arm ang)"
    unfolding step_Process_rep by (simp add: b)
  have p: "?P = (fst ?P, fst (snd ?P), snd (snd ?P))" by simp
  have c: "calibration (fst ?P) = calibration (counter ss)"
    by (rule process_rep_counter_full(1) [OF len])
  from process_rep_feedback_full(1) [OF len p]
  show ?thesis unfolding step_Process_rep by (simp only: Session.simps fun_upd_same b c)
qed

lemma step_feedback_short:
  assumes "length (angle_history (counter (step ss (Process_rep arm ang t r))) arm) < 4"
  shows "feedback (arm_metrics (step ss (Process_rep arm ang t r)) arm) = feedback (arm_metrics ss arm)"
    and "current_compliment (counter (step ss (Process_rep arm ang t r))) = current_compliment (counter ss)"
proof -
  let ?P = "process_rep (counter ss) arm ang (arm_metrics ss arm) t (history ss) r"
  have b: "angle_history (fst ?P) arm = buffer_after (counter ss) arm ang"
    by (simp add: process_rep_angle_history)
  from assms have len: "length (buffer_after (counter ss) arm ang) < 4"
    unfolding step_Process_rep by (simp add: b)
  note q = process_rep_short [OF len, of "arm_metrics ss arm" t "history ss" r]
  show "feedback (arm_metrics (step ss (Process_rep arm ang t r)) arm) = feedback (arm_metrics ss arm)"
    unfolding step_Process_rep by (simp add: q)
  show "current_compliment (counter (step ss (Process_rep arm ang t r))) = current_compliment (counter ss)"
    unfolding step_Process_rep by (simp add: q)
qed

lemma step_other_feedback:
  assumes "a \<noteq> arm"
  shows "feedback (arm_metrics (step ss (Process_rep arm ang t r)) a) = feedback (arm_metrics ss a)"
    and "current_compliment (counter (step ss (Process_rep arm ang t r))) a = current_compliment (counter ss) a"
proof -
  show "feedback (arm_metrics (step ss (Process_rep arm ang t r)) a) = feedback (arm_metrics ss a)"
    using assms unfolding step_Process_rep by simp
  show "current_compliment (counter (step ss (Process_rep arm ang t r))) a = current_compliment (counter ss) a"
    using assms unfolding step_Process_rep
    by (cases "4 \<le> length (buffer_after (counter ss) arm ang)")
       (simp_all add: process_rep_counter_full process_rep_counter_short)
qed

lemma without_phrases_fields:
  assumes "without_phrases ss = without_phrases ss'"
  shows "angle_history (counter ss) = angle_history (counter ss')"
    and "calibration (counter ss) = calibration (counter ss')"
    and "last_rep_time (counter ss) = last_rep_time (counter ss')"
    and "stage (arm_metrics ss a) = stage (arm_metrics ss' a)"
proof -
  from assms have s: "(counter ss)\<lparr>current_compliment := (\<lambda>_. [])\<rparr>
              = (counter ss')\<lparr>current_compliment := (\<lambda>_. [])\<rparr>"
    and m: "(arm_metrics ss a)\<lparr>feedback := []\<rparr> = (arm_metrics ss' a)\<lparr>feedback := []\<rparr>"
    by (simp_all add: without_phrases_eq)
  from s show "angle_history (counter ss) = angle_history (counter ss')"
    and "calibration (counter ss) = calibration (counter ss')"
    and "last_rep_time (counter ss) = last_rep_time (counter ss')"
    by (simp_all add: counter_without_compliment_eq)
  from m show "stage (arm_metrics ss a) = stage (arm_metrics ss' a)"
    by (simp add: metrics_without_feedback_eq)
qed

lemma step_feedback_pair:
  assumes w: "without_phrases ss = without_phrases ss'"
    and len: "4 \<le> length (angle_history (counter (step ss (Process_rep arm ang t r))) arm)"
  shows "feedback (arm_metrics (step ss (Process_rep arm ang t r)) arm) =
     (if ang > 178 then ''Over Extending''
      else if ang < 2 then ''Over Curling''
      else if velocity_of (angle_history (counter (step ss (Process_rep arm ang t r))) arm) < 0.5
              \<and> (stage (arm_metrics (step ss (Process_rep arm ang t r)) arm) = MOVING_UP \<or> stage (arm_metrics (step ss (Process_rep arm ang t r)) arm) = UP)
              \<and> ang > contracted_threshold (calibration (counter (step ss (Process_rep arm ang t r)))) + 10
        then ''Curl Higher''
      else if velocity_of (angle_history (counter (step ss (Process_rep arm ang t r))) arm) < 0.5
              \<and> (stage (arm_metrics (step ss (Process_rep arm ang t r)) arm) = MOVING_DOWN \<or> stage (arm_metrics (step ss (Process_rep arm ang t r)) arm) = DOWN)
              \<and> ang < extended_threshold (calibration (counter (step ss (Process_rep arm ang t r)))) - 10
        then ''Extend Fully''
      else if t - last_rep_time (counter (step ss (Process_rep arm ang t r))) arm < 2 then current_compliment (counter (step ss (Process_rep arm ang t r))) arm
      else ''Maintain Form'')"
    and "feedback (arm_metrics (step ss' (Process_rep arm ang t r')) arm) =
     (if ang > 178 then ''Over Extending''
      else if ang < 2 then ''Over Curling''
      else if velocity_of (angle_history (counter (step ss (Process_rep arm ang t r))) arm) < 0.5
              \<and> (stage (arm_metrics (step ss (Process_rep arm ang t r)) arm) = MOVING_UP \<or> stage (arm_metrics (step ss (Process_rep arm ang t r)) arm) = UP)
              \<and> ang > contracted_threshold (calibration (counter (step ss (Process_rep arm ang t r)))) + 10
        then ''Curl Higher''
      else if velocity_of (angle_history (counter (step ss (Process_rep arm ang t r))) arm) < 0.5
              \<and> (stage (arm_metrics (step ss (Process_rep arm ang t r)) arm) = MOVING_DOWN \<or> stage (arm_metrics (step ss (Process_rep arm ang t r)) arm) = DOWN)
              \<and> ang < extended_threshold (calibration (counter (step ss (Process_rep arm ang t r)))) - 10
        then ''Extend Fully''
      else if t - last_rep_time (counter (step ss (Process_rep arm ang t r))) arm < 2 then current_compliment (counter (step ss' (Process_rep arm ang t r'))) arm
      else ''Maintain Form'')"
proof -
  show "feedback (arm_metrics (step ss (Process_rep arm ang t r)) arm) =
     (if ang > 178 then ''Over Extending''
      else if ang < 2 then ''Over Curling''
      else if velocity_of (angle_history (counter (step ss (Process_rep arm ang t r))) arm) < 0.5
              \<and> (stage (arm_metrics (step ss (Process_rep arm ang t r)) arm) = MOVING_UP \<or> stage (arm_metrics (step ss (Process_rep arm ang t r)) arm) = UP)
              \<and> ang > contracted_threshold (calibration (counter (step ss (Process_rep arm ang t r)))) + 10
        then ''Curl Higher''
      else if velocity_of (angle_history (counter (step ss (Process_rep arm ang t r))) arm) < 0.5
              \<and> (stage (arm_metrics (step ss (Process_rep arm ang t r)) arm) = MOVING_DOWN \<or> stage (arm_metrics (step ss (Process_rep arm ang t r)) arm) = DOWN)
              \<and> ang < extended_threshold (calibration (counter (step ss (Process_rep arm ang t r)))) - 10
        then ''Extend Fully''
      else if t - last_rep_time (counter (step ss (Process_rep arm ang t r))) arm < 2 then current_compliment (counter (step ss (Process_rep arm ang t r))) arm
      else ''Maintain Form'')"
    using len by (rule step_feedback_chain)
  have "same_inputs (Process_rep arm ang t r) (Process_rep arm ang t r')" by simp
  from step_without_phrases [OF this w]
  have w': "without_phrases (step ss (Process_rep arm ang t r)) = without_phrases (step ss' (Process_rep arm ang t r'))" .
  note e = without_phrases_fields [OF w']
  from len have len': "4 \<le> length (angle_history (counter (step ss' (Process_rep arm ang t r'))) arm)"
    by (simp only: e(1))
  from step_feedback_chain [OF len']
  show "feedback (arm_metrics (step ss' (Process_rep arm ang t r')) arm) =
     (if ang > 178 then ''Over Extending''
      else if ang < 2 then ''Over Curling''
      else if velocity_of (angle_history (counter (step ss (Process_rep arm ang t r))) arm) < 0.5
              \<and> (stage (arm_metrics (step ss (Process_rep arm ang t r)) arm) = MOVING_UP \<or> stage (arm_metrics (step ss (Process_rep arm ang t r)) arm) = UP)
              \<and> ang > contracted_threshold (calibration (counter (step ss (Process_rep arm ang t r)))) + 10
        then ''Curl Higher''
      else if velocity_of (angle_history (counter (step ss (Process_rep arm ang t r))) arm) < 0.5
              \<and> (stage (arm_metrics (step ss (Process_rep arm ang t r)) arm) = MOVING_DOWN \<or> stage (arm_metrics (step ss (Process_rep arm ang t r)) arm) = DOWN)
              \<and> ang < extended_threshold (calibration (counter (step ss (Process_rep arm ang t r)))) - 10
        then ''Extend Fully''
      else if t - last_rep_time (counter (step ss (Process_rep arm ang t r))) arm < 2 then current_compliment (counter (step ss' (Process_rep arm ang t r'))) arm
      else ''Maintain Form'')"
    by (simp only: e)
qed

lemma step_feedback_agree:
  assumes si: "same_inputs c c'"
    and w: "without_phrases ss = without_phrases ss'"
    and ag: "\<forall>a. feedback (arm_metrics ss a) = feedback (arm_metrics ss' a)
        \<or> feedback (arm_metrics ss a) = current_compliment (counter ss) a
          \<and> feedback (arm_metrics ss' a) = current_compliment (counter ss') a"
  shows "feedback (arm_metrics (step ss c) a) = feedback (arm_metrics (step ss' c') a)
        \<or> feedback (arm_metrics (step ss c) a) = current_compliment (counter (step ss c)) a
          \<and> feedback (arm_metrics (step ss' c') a) = current_compliment (counter (step ss' c')) a"
proof (cases c)
  case c: (Process_rep arm ang t r)
  with si obtain r' where c': "c' = Process_rep arm ang t r'"
    by (cases c') auto
  from step_without_phrases [OF si w]
  have w': "without_phrases (step ss (Process_rep arm ang t r)) = without_phrases (step ss' (Process_rep arm ang t r'))" unfolding c c' .
  note e = without_phrases_fields [OF w']
  show ?thesis
  proof (cases "a = arm")
    case False
    note o = step_other_feedback [OF False]
    from ag [THEN spec, of a] show ?thesis unfolding c c' by (simp only: o)
  next
    case True
    show ?thesis
    proof (cases "4 \<le> length (angle_history (counter (step ss (Process_rep arm ang t r))) arm)")
      case long: True
      have pick: "F = F' \<or> F = k \<and> F' = k'"
        if "F = (if A then x else if B then y else if C then z else if D then u
                 else if E then k else w)"
          and "F' = (if A then x else if B then y else if C then z else if D then u
                     else if E then k' else w)"
        for F F' k k' x y z u w :: string and A B C D E
        using that by auto
      from step_feedback_pair [OF w long]
      show ?thesis unfolding c c' True by (rule pick)
    next
      case False
      then have sh: "length (angle_history (counter (step ss (Process_rep arm ang t r))) arm) < 4" by simp
      then have sh': "length (angle_history (counter (step ss' (Process_rep arm ang t r'))) arm) < 4"
        by (simp only: e(1))
      from ag show ?thesis unfolding c c' True
        by (simp only: step_feedback_short [OF sh] step_feedback_short [OF sh'])
    qed
  qed
next
  case c: (Reset_arm arm)
  with si have c': "c' = Reset_arm arm" by (cases c') auto
  from ag show ?thesis unfolding c c' by (simp add: reset_arm_def)
qed

lemma run_feedback_agree:
  assumes "list_all2 same_inputs cs cs'"
  shows "without_phrases ss = without_phrases ss' \<Longrightarrow>
         \<forall>a. feedback (arm_metrics ss a) = feedback (arm_metrics ss' a)
        \<or> feedback (arm_metrics ss a) = current_compliment (counter ss) a
          \<and> feedback (arm_metrics ss' a) = current_compliment (counter ss') a \<Longrightarrow>
         \<forall>a. feedback (arm_metrics (run ss cs) a) = feedback (arm_metrics (run ss' cs') a)
        \<or> feedback (arm_metrics (run ss cs) a) = current_compliment (counter (run ss cs)) a
          \<and> feedback (arm_metrics (run ss' cs') a) = current_compliment (counter (run ss' cs')) a"
  using assms
proof (induction cs cs' arbitrary: ss ss' rule: list_all2_induct)
  case Nil
  then show ?case by simp
next
  case (Cons c cs c' cs')
  from Cons.hyps(1) Cons.prems(1)
  have w: "without_phrases (step ss c) = without_phrases (step ss' c')"
    by (rule step_without_phrases)
  have "\<forall>a. feedback (arm_metrics (step ss c) a) = feedback (arm_metrics (step ss' c') a)
        \<or> feedback (arm_metrics (step ss c) a) = current_compliment (counter (step ss c)) a
          \<and> feedback (arm_metrics (step ss' c') a) = current_compliment (counter (step ss' c')) a"
    using step_feedback_agree [OF Cons.hyps(1) Cons.prems(1) Cons.prems(2)] by blast
  from Cons.IH [OF w this] show ?case by simp
qed

section \<open>The classifier\<close>

text \<open>
  C3 (as amended). \<open>_determine_target_state\<close> with margin 5: an angle at or below
  \<open>contracted - 5\<close> gives UP for every current stage; an angle at or above
  \<open>extended + 5\<close> gives DOWN for every current stage provided it is above
  \<open>contracted - 5\<close> (the UP test is made first); between the two hard bounds the result
  is sticky: from UP it is UP below \<open>contracted + 5\<close> and MOVING\_DOWN otherwise, from
  DOWN it is DOWN above \<open>extended - 5\<close> and MOVING\_UP otherwise, MOVING\_UP and
  MOVING\_DOWN stay as they are, and so does any other stage value. The result depends
  on the counter through the margin only, which is 5 in a new counter.
\<close>

theorem determine_target_state_bands:
  assumes "hysteresis_margin s = 5"
  shows "(ang \<le> contracted - 5 \<longrightarrow>
            determine_target_state s ang contracted extended current_stage = UP)
       \<and> (contracted - 5 < ang \<and> ang \<ge> extended + 5 \<longrightarrow>
            determine_target_state s ang contracted extended current_stage = DOWN)
       \<and> (contracted - 5 < ang \<and> ang < extended + 5 \<longrightarrow>
            determine_target_state s ang contracted extended UP =
              (if ang < contracted + 5 then UP else MOVING_DOWN)
          \<and> determine_target_state s ang contracted extended DOWN =
              (if ang > extended - 5 then DOWN else MOVING_UP)
          \<and> determine_target_state s ang contracted extended MOVING_UP = MOVING_UP
          \<and> determine_target_state s ang contracted extended MOVING_DOWN = MOVING_DOWN
          \<and> determine_target_state s ang contracted extended (OTHER v) = OTHER v)
       \<and> (hysteresis_margin s' = 5 \<longrightarrow>
            determine_target_state s' ang contracted extended current_stage =
            determine_target_state s ang contracted extended current_stage)
       \<and> hysteresis_margin (RepCounter_init calibration_data min_rep_dur) = 5"
  using assms by (simp add: determine_target_state_def RepCounter_init_def Let_def)

theorem determine_target_state_bands_witness:
  "hysteresis_margin (RepCounter_init_default example_calibration) = 5
   \<and> determine_target_state (RepCounter_init_default example_calibration) 30 40 160 DOWN = UP
   \<and> determine_target_state (RepCounter_init_default example_calibration) 170 40 160 UP = DOWN
   \<and> determine_target_state (RepCounter_init_default example_calibration) 100 40 160 MOVING_UP
       = MOVING_UP
   \<and> determine_target_state example_counter_up 100 40 160 MOVING_UP
       = determine_target_state (RepCounter_init_default example_calibration) 100 40 160 MOVING_UP"
proof -
  let ?s = "RepCounter_init_default example_calibration"
  have h: "hysteresis_margin ?s = 5"
    by (simp add: RepCounter_init_default_def RepCounter_init_def)
  have h': "hysteresis_margin example_counter_up = 5"
    by (simp add: example_counter_up_def)
  from determine_target_state_bands
    [OF h, where ang = 30 and contracted = 40 and extended = 160 and current_stage = DOWN]
  have a: "determine_target_state ?s 30 40 160 DOWN = UP" by simp
  from determine_target_state_bands
    [OF h, where ang = 170 and contracted = 40 and extended = 160 and current_stage = UP]
  have b: "determine_target_state ?s 170 40 160 UP = DOWN" by simp
  from determine_target_state_bands
    [OF h, where ang = 100 and contracted = 40 and extended = 160
       and current_stage = MOVING_UP and s' = example_counter_up] h'
  have c: "determine_target_state ?s 100 40 160 MOVING_UP = MOVING_UP"
    and d: "determine_target_state example_counter_up 100 40 160 MOVING_UP
       = determine_target_state ?s 100 40 160 MOVING_UP" by simp_all
  from h a b c d show ?thesis by simp
qed

text \<open>
  With thresholds whose hard bounds overlap (contracted 160, extended 40) the angle 100
  is at or above \<open>extended + 5\<close> and the result from DOWN is UP, not DOWN.
\<close>

theorem determine_target_state_down_counterexample:
  "(100::real) \<ge> 40 + 5
   \<and> determine_target_state
        (RepCounter_init_default \<lparr>contracted_threshold = 160, extended_threshold = 40\<rparr>)
        100 160 40 DOWN \<noteq> DOWN"
  by (simp add: determine_target_state_def RepCounter_init_default_def
      RepCounter_init_def Let_def)

section \<open>The transition confirmer\<close>

text \<open>
  C2. On a call of \<open>process_rep\<close> that computes a velocity (the buffer holds at least
  four samples after the append): if the target stage equals the committed stage, the
  pending candidate is cleared; if the target differs from the committed stage and is
  the pending candidate, the stage becomes the target if and only if the candidate has
  been pending for at least \<open>state_hold_time\<close> and the velocity is below 15, and
  otherwise stage, pending candidate, its start time and \<open>rep_count\<close> are unchanged;
  if the target differs from both, it becomes the pending candidate with the current
  timestamp as start. A call changes the committed stage only in the committing case.
  \<open>state_hold_time\<close> is 0.15 in a new counter and no call changes it.
\<close>

theorem state_confirmation_debounce:
  assumes "process_rep s arm ang m t h r = (s', m', h')"
  shows
    "(4 \<le> length (buffer_after s arm ang) \<longrightarrow>
        (target_of s ang m = stage m \<longrightarrow>
           pending_state s' arm = None \<and> stage m' = stage m)
      \<and> (target_of s ang m \<noteq> stage m \<and> pending_state s arm = Some (target_of s ang m) \<longrightarrow>
           (stage m' = target_of s ang m \<longleftrightarrow>
              state_hold_time s \<le> t - pending_state_start s arm
              \<and> velocity_of (buffer_after s arm ang) < 15)
         \<and> (stage m' \<noteq> target_of s ang m \<longrightarrow>
              stage m' = stage m \<and> pending_state s' = pending_state s
            \<and> pending_state_start s' = pending_state_start s
            \<and> rep_count m' = rep_count m))
      \<and> (target_of s ang m \<noteq> stage m \<and> pending_state s arm \<noteq> Some (target_of s ang m) \<longrightarrow>
           pending_state s' arm = Some (target_of s ang m)
         \<and> pending_state_start s' arm = t \<and> stage m' = stage m))
   \<and> (stage m' \<noteq> stage m \<longrightarrow>
        4 \<le> length (buffer_after s arm ang) \<and> stage m' = target_of s ang m
      \<and> pending_state s arm = Some (target_of s ang m)
      \<and> state_hold_time s \<le> t - pending_state_start s arm
      \<and> velocity_of (buffer_after s arm ang) < 15)
   \<and> state_hold_time s' = state_hold_time s
   \<and> state_hold_time (RepCounter_init calibration_data min_rep_dur) = 0.15"
proof (cases "4 \<le> length (buffer_after s arm ang)")
  case True
  note p = process_rep_projections [OF assms]
  note f = process_rep_metrics_full [OF True, of m t h r, folded p]
    process_rep_counter_full [OF True, of m t h r, folded p]
  show ?thesis
    using True by (auto simp: f commits_def RepCounter_init_def)
next
  case False
  note p = process_rep_projections [OF assms]
  note f = process_rep_metrics_short [OF False, of m t h r, folded p]
    process_rep_counter_short [OF False, of m t h r, folded p]
  show ?thesis
    using False by (auto simp: f RepCounter_init_def)
qed

theorem state_confirmation_debounce_witness:
  "4 \<le> length (deque_append 8 (angle_history example_counter_up RIGHT) 170)
   \<and> stage example_metrics_up = UP
   \<and> pending_state example_counter_up RIGHT = Some DOWN
   \<and> stage (fst (snd (process_rep example_counter_up RIGHT 170 example_metrics_up 1.1
                        example_history 3))) = DOWN
   \<and> stage (fst (snd (process_rep example_counter_up RIGHT 170 example_metrics_up 0.9
                        example_history 3))) = UP
   \<and> pending_state (fst (process_rep example_counter_up RIGHT 170 example_metrics_up 0.9
                           example_history 3)) = pending_state example_counter_up
   \<and> pending_state (fst (process_rep example_counter_up RIGHT 100 example_metrics_up 1.1
                           example_history 3)) RIGHT = Some MOVING_DOWN
   \<and> pending_state_start (fst (process_rep example_counter_up RIGHT 100 example_metrics_up
                                 1.1 example_history 3)) RIGHT = 1.1
   \<and> pending_state (fst (process_rep example_counter_up RIGHT 30 example_metrics_up 1.1
                           example_history 3)) RIGHT = None"
proof -
  let ?P = "\<lambda>ang t. process_rep example_counter_up RIGHT ang example_metrics_up t
              example_history 3"
  have p: "?P ang t = (fst (?P ang t), fst (snd (?P ang t)), snd (snd (?P ang t)))"
    for ang t by simp
  have len: "4 \<le> length (deque_append 8 (angle_history example_counter_up RIGHT) ang)"
    for ang by (simp add: example_defs deque_append_def)
  have st: "stage example_metrics_up = UP"
    by (simp add: example_defs)
  have pend: "pending_state example_counter_up RIGHT = Some DOWN"
    by (simp add: example_defs)
  have tg: "target_of example_counter_up 170 example_metrics_up = DOWN"
    "target_of example_counter_up 100 example_metrics_up = MOVING_DOWN"
    "target_of example_counter_up 30 example_metrics_up = UP"
    by (simp_all add: example_defs determine_target_state_def)
  have hold: "state_hold_time example_counter_up
                \<le> 1.1 - pending_state_start example_counter_up RIGHT"
    "\<not> state_hold_time example_counter_up
                \<le> 0.9 - pending_state_start example_counter_up RIGHT"
    by (simp_all add: example_defs)
  have v: "velocity_of (deque_append 8 (angle_history example_counter_up RIGHT) 170) < 15"
    by (simp add: example_defs deque_append_def velocity_of_def)
  note T1 = state_confirmation_debounce [OF p [of 170 "1.1"],
      where calibration_data = example_calibration and min_rep_dur = "0.6",
      THEN conjunct1, THEN mp, OF len [of 170]]
  note T2 = state_confirmation_debounce [OF p [of 170 "0.9"],
      where calibration_data = example_calibration and min_rep_dur = "0.6",
      THEN conjunct1, THEN mp, OF len [of 170]]
  note T3 = state_confirmation_debounce [OF p [of 100 "1.1"],
      where calibration_data = example_calibration and min_rep_dur = "0.6",
      THEN conjunct1, THEN mp, OF len [of 100]]
  note T4 = state_confirmation_debounce [OF p [of 30 "1.1"],
      where calibration_data = example_calibration and min_rep_dur = "0.6",
      THEN conjunct1, THEN mp, OF len [of 30]]
  have pre: "target_of example_counter_up 170 example_metrics_up \<noteq> stage example_metrics_up
      \<and> pending_state example_counter_up RIGHT
          = Some (target_of example_counter_up 170 example_metrics_up)"
    using tg st pend by simp
  from T1 [THEN conjunct2, THEN conjunct1, THEN mp, OF pre, THEN conjunct1] hold(1) v
  have "stage (fst (snd (?P 170 1.1))) = target_of example_counter_up 170 example_metrics_up"
    by simp
  then have a: "stage (fst (snd (?P 170 1.1))) = DOWN" by (simp add: tg)
  from T2 [THEN conjunct2, THEN conjunct1, THEN mp, OF pre, THEN conjunct1] hold(2)
  have "stage (fst (snd (?P 170 0.9))) \<noteq> target_of example_counter_up 170 example_metrics_up"
    by simp
  with T2 [THEN conjunct2, THEN conjunct1, THEN mp, OF pre, THEN conjunct2]
  have "stage (fst (snd (?P 170 0.9))) = stage example_metrics_up
      \<and> pending_state (fst (?P 170 0.9)) = pending_state example_counter_up
      \<and> pending_state_start (fst (?P 170 0.9)) = pending_state_start example_counter_up
      \<and> rep_count (fst (snd (?P 170 0.9))) = rep_count example_metrics_up"
    by (rule mp)
  then have b: "stage (fst (snd (?P 170 0.9))) = UP"
    "pending_state (fst (?P 170 0.9)) = pending_state example_counter_up"
    by (simp_all add: st)
  have pre3: "target_of example_counter_up 100 example_metrics_up \<noteq> stage example_metrics_up
      \<and> pending_state example_counter_up RIGHT
          \<noteq> Some (target_of example_counter_up 100 example_metrics_up)"
    using tg st pend by simp
  from T3 [THEN conjunct2, THEN conjunct2, THEN mp, OF pre3]
  have c: "pending_state (fst (?P 100 1.1)) RIGHT = Some MOVING_DOWN"
    "pending_state_start (fst (?P 100 1.1)) RIGHT = 1.1"
    by (simp_all add: tg)
  have pre4: "target_of example_counter_up 30 example_metrics_up = stage example_metrics_up"
    using tg st by simp
  from T4 [THEN conjunct1, THEN mp, OF pre4]
  have d: "pending_state (fst (?P 30 1.1)) RIGHT = None" by simp
  from len [of 170] st pend a b c d show ?thesis by simp
qed

section \<open>Counting repetitions\<close>

text \<open>
  C1. A call of \<open>process_rep\<close> that takes the committed stage from UP to another stage
  takes it to MOVING\_DOWN or DOWN; with \<open>rep_time = current_time - last_down_time\<close>,
  if \<open>rep_time \<ge> min_rep_duration\<close> then \<open>rep_count\<close> grows by exactly 1, \<open>rep_time\<close>
  is recorded, \<open>last_down_time\<close> becomes the current time and \<open>curr_rep_time\<close> is 0;
  if \<open>rep_time < min_rep_duration\<close> then \<open>rep_count\<close>, \<open>last_down_time\<close>, \<open>rep_time\<close>,
  \<open>min_rep_time\<close> and \<open>curr_rep_time\<close> are unchanged. Any call leaves \<open>rep_count\<close>
  unchanged or adds 1 to it, the latter only in the first case; over any sequence of
  calls \<open>rep_count\<close> never decreases. \<open>min_rep_duration\<close> is 0.6 by default and no
  call changes it.
\<close>

theorem rep_count_lifecycle:
  assumes "process_rep s arm ang m t h r = (s', m', h')"
  shows
    "(stage m = UP \<and> stage m' \<noteq> UP \<longrightarrow>
        (stage m' = MOVING_DOWN \<or> stage m' = DOWN)
      \<and> (min_rep_duration s \<le> t - last_down_time m \<longrightarrow>
            rep_count m' = rep_count m + 1 \<and> rep_time m' = t - last_down_time m
          \<and> last_down_time m' = t \<and> curr_rep_time m' = 0)
      \<and> (t - last_down_time m < min_rep_duration s \<longrightarrow>
            rep_count m' = rep_count m \<and> last_down_time m' = last_down_time m
          \<and> rep_time m' = rep_time m \<and> min_rep_time m' = min_rep_time m
          \<and> curr_rep_time m' = curr_rep_time m))
   \<and> (rep_count m' = rep_count m
      \<or> rep_count m' = rep_count m + 1 \<and> stage m = UP
        \<and> (stage m' = MOVING_DOWN \<or> stage m' = DOWN)
        \<and> min_rep_duration s \<le> t - last_down_time m)
   \<and> rep_count (arm_metrics ss a) \<le> rep_count (arm_metrics (run ss cs) a)
   \<and> min_rep_duration s' = min_rep_duration s
   \<and> min_rep_duration (RepCounter_init_default calibration_data) = 0.6"
proof -
  have m': "m' = fst (snd (process_rep s arm ang m t h r))"
    using assms by simp
  have d: "min_rep_duration s' = min_rep_duration s
      \<and> min_rep_duration (RepCounter_init_default calibration_data) = 0.6"
    using assms process_rep_counter_full(2) [of s arm ang m t h r]
      process_rep_counter_short(2) [of s arm ang m t h r]
    by (cases "4 \<le> length (buffer_after s arm ang)")
       (auto simp: RepCounter_init_default_def RepCounter_init_def)
  have crt: "stage m' \<noteq> UP \<Longrightarrow>
      curr_rep_time m' = (if count_call s arm ang m t then 0 else curr_rep_time m)"
    using process_rep_curr_rep_time [OF assms] by simp
  note tg = target_from_UP [of s ang "contracted_threshold (calibration s)"
      "extended_threshold (calibration s)"]
  show ?thesis
  proof (cases "4 \<le> length (buffer_after s arm ang)")
    case True
    note f = process_rep_metrics_full [OF True, of m t h r, folded m']
    show ?thesis
    proof (cases "commits s arm (stage m) (target_of s ang m) t
                    (velocity_of (buffer_after s arm ang))")
      case c: True
      with True tg crt d show ?thesis
        by (auto simp: f counts_rep_def run_rep_count_mono)
    next
      case c: False
      with True crt d show ?thesis
        by (auto simp: f run_rep_count_mono)
    qed
  next
    case False
    note f = process_rep_metrics_short [OF False, of m t h r, folded m']
    from False crt d show ?thesis
      by (auto simp: f run_rep_count_mono)
  qed
qed

theorem rep_count_lifecycle_witness:
  "stage example_metrics_up = UP
   \<and> stage (fst (snd (process_rep example_counter_up RIGHT 170 example_metrics_up 1.1
                        example_history 3))) = DOWN
   \<and> min_rep_duration example_counter_up \<le> 1.1 - last_down_time example_metrics_up
   \<and> rep_count (fst (snd (process_rep example_counter_up RIGHT 170 example_metrics_up 1.1
                            example_history 3))) = rep_count example_metrics_up + 1
   \<and> last_down_time (fst (snd (process_rep example_counter_up RIGHT 170 example_metrics_up
                                 1.1 example_history 3))) = 1.1
   \<and> 1.1 - last_down_time (example_metrics_up\<lparr>last_down_time := 0.8\<rparr>)
       < min_rep_duration example_counter_up
   \<and> rep_count (fst (snd (process_rep example_counter_up RIGHT 170
                            (example_metrics_up\<lparr>last_down_time := 0.8\<rparr>) 1.1
                            example_history 3))) = rep_count example_metrics_up"
proof -
  let ?P = "process_rep example_counter_up RIGHT 170 example_metrics_up 1.1
              example_history 3"
  let ?Q = "process_rep example_counter_up RIGHT 170
              (example_metrics_up\<lparr>last_down_time := 0.8\<rparr>) 1.1 example_history 3"
  have p: "?P = (fst ?P, fst (snd ?P), snd (snd ?P))"
    and q: "?Q = (fst ?Q, fst (snd ?Q), snd (snd ?Q))" by simp_all
  have up: "stage example_metrics_up = UP"
    by (simp add: example_metrics_up_def)
  have down: "stage (fst (snd ?P)) = DOWN" "stage (fst (snd ?Q)) = DOWN"
    by (simp_all add: example_defs model_defs)
  have long: "min_rep_duration example_counter_up \<le> 1.1 - last_down_time example_metrics_up"
    by (simp add: example_defs)
  have short: "1.1 - last_down_time (example_metrics_up\<lparr>last_down_time := 0.8\<rparr>)
                 < min_rep_duration example_counter_up"
    by (simp add: example_defs)
  from rep_count_lifecycle [OF p] up down(1) long
  have a: "rep_count (fst (snd ?P)) = rep_count example_metrics_up + 1"
    and b: "last_down_time (fst (snd ?P)) = 1.1" by simp_all
  from rep_count_lifecycle [OF q] up down(2) short
  have c: "rep_count (fst (snd ?Q)) = rep_count example_metrics_up" by simp
  from up down(1) long a b short c show ?thesis by simp
qed

section \<open>Start of a repetition\<close>

text \<open>
  C7 (as amended). When a call of \<open>process_rep\<close> commits a transition into DOWN from a
  stage other than UP, \<open>rep_start_time\<close> of that limb becomes the current time; when the
  previous stage is UP, \<open>rep_start_time\<close> is left as it was (the branch for UP is taken
  instead). The other limb's \<open>rep_start_time\<close> is unchanged. The same holds of
  \<open>_handle_state_transition\<close> called directly.
\<close>

theorem rep_start_time_on_entering_DOWN:
  assumes "process_rep s arm ang m t h r = (s', m', h')"
    and "stage m \<noteq> DOWN" and "stage m' = DOWN"
  shows "(stage m \<noteq> UP \<longrightarrow> rep_start_time s' arm = t)
       \<and> (stage m = UP \<longrightarrow> rep_start_time s' = rep_start_time s)
       \<and> (\<forall>other. other \<noteq> arm \<longrightarrow> rep_start_time s' other = rep_start_time s other)
       \<and> (prev_stage \<noteq> UP \<longrightarrow>
            rep_start_time (fst (handle_state_transition s arm prev_stage DOWN m t r)) arm = t)
       \<and> rep_start_time (fst (handle_state_transition s arm UP DOWN m t r))
            = rep_start_time s"
proof (cases "4 \<le> length (buffer_after s arm ang)")
  case True
  note p = process_rep_projections [OF assms(1)]
  note f = process_rep_metrics_full [OF True, of m t h r, folded p]
    process_rep_counter_full [OF True, of m t h r, folded p]
  from assms(2,3) have c: "commits s arm (stage m) (target_of s ang m) t
      (velocity_of (buffer_after s arm ang))" and d: "target_of s ang m = DOWN"
    by (auto simp: f split: if_splits)
  show ?thesis
    using True c d by (simp add: f hst_counter)
next
  case False
  note p = process_rep_projections [OF assms(1)]
  note f = process_rep_metrics_short [OF False, of m t h r, folded p]
  from assms(2,3) False show ?thesis by (simp add: f)
qed

theorem rep_start_time_on_entering_DOWN_witness:
  "stage (example_metrics_up\<lparr>stage := MOVING_DOWN\<rparr>) \<noteq> DOWN
   \<and> stage (example_metrics_up\<lparr>stage := MOVING_DOWN\<rparr>) \<noteq> UP
   \<and> stage (fst (snd (process_rep example_counter_up RIGHT 170
                        (example_metrics_up\<lparr>stage := MOVING_DOWN\<rparr>) 1.1
                        example_history 3))) = DOWN
   \<and> rep_start_time (fst (process_rep example_counter_up RIGHT 170
                            (example_metrics_up\<lparr>stage := MOVING_DOWN\<rparr>) 1.1
                            example_history 3)) RIGHT = 1.1
   \<and> stage example_metrics_up = UP
   \<and> stage (fst (snd (process_rep example_counter_up RIGHT 170 example_metrics_up 1.1
                        example_history 3))) = DOWN
   \<and> rep_start_time (fst (process_rep example_counter_up RIGHT 170 example_metrics_up 1.1
                            example_history 3)) = rep_start_time example_counter_up
   \<and> rep_start_time (fst (process_rep example_counter_up RIGHT 170
                            (example_metrics_up\<lparr>stage := MOVING_DOWN\<rparr>) 1.1
                            example_history 3)) LEFT = rep_start_time example_counter_up LEFT"
proof -
  let ?m = "example_metrics_up\<lparr>stage := MOVING_DOWN\<rparr>"
  let ?P = "process_rep example_counter_up RIGHT 170 ?m 1.1 example_history 3"
  let ?Q = "process_rep example_counter_up RIGHT 170 example_metrics_up 1.1
              example_history 3"
  have p: "?P = (fst ?P, fst (snd ?P), snd (snd ?P))"
    and q: "?Q = (fst ?Q, fst (snd ?Q), snd (snd ?Q))" by simp_all
  have m: "stage ?m \<noteq> DOWN" "stage ?m \<noteq> UP"
    "stage example_metrics_up \<noteq> DOWN" "stage example_metrics_up = UP"
    by (simp_all add: example_defs)
  have down: "stage (fst (snd ?P)) = DOWN" "stage (fst (snd ?Q)) = DOWN"
    by (simp_all add: example_defs model_defs)
  have ne: "LEFT \<noteq> RIGHT" by simp
  from rep_start_time_on_entering_DOWN [OF p m(1) down(1)] m(2) ne
  have a: "rep_start_time (fst ?P) RIGHT = 1.1"
    "rep_start_time (fst ?P) LEFT = rep_start_time example_counter_up LEFT"
    by simp_all
  from rep_start_time_on_entering_DOWN [OF q m(3) down(2)] m(4)
  have b: "rep_start_time (fst ?Q) = rep_start_time example_counter_up"
    by simp
  from m down a b show ?thesis by simp
qed

text \<open>
  In the worked session the right arm is UP after \<open>example_calls\<close>; the next sample
  commits UP to DOWN at 1.1 s, and \<open>rep_start_time\<close> still holds 0.7 s.
\<close>

theorem rep_start_time_from_UP_counterexample:
  "stage (arm_metrics (run example_session example_calls) RIGHT) = UP
   \<and> stage (arm_metrics (run example_session (example_calls @ [Process_rep RIGHT 170 1.1 3]))
             RIGHT) = DOWN
   \<and> rep_start_time
        (counter (run example_session (example_calls @ [Process_rep RIGHT 170 1.1 3])))
        RIGHT = 0.7
   \<and> rep_start_time
        (counter (run example_session (example_calls @ [Process_rep RIGHT 170 1.1 3])))
        RIGHT \<noteq> 1.1"
  by (simp add: example_defs model_defs)

section \<open>The feedback advisor\<close>

text \<open>
  C4. On every call of \<open>process_rep\<close> that computes a velocity, the feedback string is
  set in this order, the first match winning: an angle above 178 gives "Over Extending"
  and an angle below 2 gives "Over Curling", whatever the stage and the velocity;
  otherwise, with a velocity below 0.5, the stage (after the call) UP or MOVING\_UP and
  the angle above \<open>contracted + 10\<close> give "Curl Higher", and the stage DOWN or
  MOVING\_DOWN and the angle below \<open>extended - 10\<close> give "Extend Fully"; otherwise
  the stored compliment of the limb is shown if less than 2.0 seconds have passed since
  \<open>last_rep_time\<close>, and "Maintain Form" if not.
\<close>

theorem form_feedback_priority:
  assumes "process_rep s arm ang m t h r = (s', m', h')"
    and "4 \<le> length (angle_history s' arm)"
  shows
    "(ang > 178 \<longrightarrow> feedback m' = ''Over Extending'')
   \<and> (ang < 2 \<longrightarrow> feedback m' = ''Over Curling'')
   \<and> (2 \<le> ang \<and> ang \<le> 178 \<and> velocity_of (angle_history s' arm) < 0.5
        \<and> (stage m' = UP \<or> stage m' = MOVING_UP)
        \<and> ang > contracted_threshold (calibration s) + 10 \<longrightarrow>
        feedback m' = ''Curl Higher'')
   \<and> (2 \<le> ang \<and> ang \<le> 178 \<and> velocity_of (angle_history s' arm) < 0.5
        \<and> (stage m' = DOWN \<or> stage m' = MOVING_DOWN)
        \<and> ang < extended_threshold (calibration s) - 10 \<longrightarrow>
        feedback m' = ''Extend Fully'')
   \<and> (2 \<le> ang \<and> ang \<le> 178
        \<and> \<not> (velocity_of (angle_history s' arm) < 0.5
              \<and> ((stage m' = UP \<or> stage m' = MOVING_UP)
                    \<and> ang > contracted_threshold (calibration s) + 10
                 \<or> (stage m' = DOWN \<or> stage m' = MOVING_DOWN)
                    \<and> ang < extended_threshold (calibration s) - 10)) \<longrightarrow>
        feedback m' = (if t - last_rep_time s' arm < 2.0 then current_compliment s' arm
                       else ''Maintain Form''))"
proof -
  note p = process_rep_projections [OF assms(1)]
  have b: "angle_history s' arm = buffer_after s arm ang"
    unfolding p(1)
    by (cases "4 \<le> length (buffer_after s arm ang)")
       (simp_all add: process_rep_counter_full process_rep_counter_short)
  from assms(2) have len: "4 \<le> length (buffer_after s arm ang)" by (simp add: b)
  note fb = process_rep_feedback_full(1) [OF len assms(1)]
  show ?thesis
    unfolding b by (auto simp: fb)
qed

theorem form_feedback_priority_witness:
  "feedback (fst (snd (process_rep example_counter_up RIGHT 179 example_metrics_up 1.1
                         example_history 3))) = ''Over Extending''
   \<and> feedback (fst (snd (process_rep example_counter_up RIGHT 1 example_metrics_up 1.1
                           example_history 3))) = ''Over Curling''
   \<and> feedback (fst (snd (process_rep
         (example_counter_up\<lparr>angle_history := (\<lambda>_. [55, 55, 55])\<rparr>) RIGHT 55
         (example_metrics_up\<lparr>stage := MOVING_UP\<rparr>) 1.1 example_history 3)))
       = ''Curl Higher''
   \<and> feedback (fst (snd (process_rep
         (example_counter_up\<lparr>angle_history := (\<lambda>_. [140, 140, 140])\<rparr>) RIGHT 140
         (example_metrics_up\<lparr>stage := DOWN\<rparr>) 1.1 example_history 3)))
       = ''Extend Fully''
   \<and> feedback (fst (snd (process_rep example_counter_up RIGHT 170 example_metrics_up 1.1
                           example_history 3))) = ''Keep Pushing!''
   \<and> feedback (fst (snd (process_rep example_counter_up RIGHT 100 example_metrics_up 5
                           example_history 3))) = ''Maintain Form''"
proof -
  let ?A = "process_rep example_counter_up RIGHT 179 example_metrics_up 1.1
              example_history 3"
  let ?B = "process_rep example_counter_up RIGHT 1 example_metrics_up 1.1
              example_history 3"
  let ?sc = "example_counter_up\<lparr>angle_history := (\<lambda>_. [55, 55, 55])\<rparr>"
  let ?C = "process_rep ?sc RIGHT 55 (example_metrics_up\<lparr>stage := MOVING_UP\<rparr>) 1.1
              example_history 3"
  let ?sd = "example_counter_up\<lparr>angle_history := (\<lambda>_. [140, 140, 140])\<rparr>"
  let ?D = "process_rep ?sd RIGHT 140 (example_metrics_up\<lparr>stage := DOWN\<rparr>) 1.1
              example_history 3"
  let ?E = "process_rep example_counter_up RIGHT 170 example_metrics_up 1.1
              example_history 3"
  let ?F = "process_rep example_counter_up RIGHT 100 example_metrics_up 5
              example_history 3"
  have p: "X = (fst X, fst (snd X), snd (snd X))"
    for X :: "RepCounter \<times> Metrics \<times> History" by simp
  have len: "4 \<le> length (angle_history (fst ?A) RIGHT)"
    "4 \<le> length (angle_history (fst ?B) RIGHT)"
    "4 \<le> length (angle_history (fst ?C) RIGHT)"
    "4 \<le> length (angle_history (fst ?D) RIGHT)"
    "4 \<le> length (angle_history (fst ?E) RIGHT)"
    "4 \<le> length (angle_history (fst ?F) RIGHT)"
    by (simp_all add: example_defs model_defs)
  have a: "(179::real) > 178" by simp
  have b: "(1::real) < 2" by simp
  have c: "2 \<le> (55::real) \<and> (55::real) \<le> 178
      \<and> velocity_of (angle_history (fst ?C) RIGHT) < 0.5
      \<and> (stage (fst (snd ?C)) = UP \<or> stage (fst (snd ?C)) = MOVING_UP)
      \<and> 55 > contracted_threshold (calibration ?sc) + 10"
    by (simp add: example_defs model_defs)
  have d: "2 \<le> (140::real) \<and> (140::real) \<le> 178
      \<and> velocity_of (angle_history (fst ?D) RIGHT) < 0.5
      \<and> (stage (fst (snd ?D)) = DOWN \<or> stage (fst (snd ?D)) = MOVING_DOWN)
      \<and> 140 < extended_threshold (calibration ?sd) - 10"
    by (simp add: example_defs model_defs)
  have e: "2 \<le> (170::real) \<and> (170::real) \<le> 178
      \<and> \<not> (velocity_of (angle_history (fst ?E) RIGHT) < 0.5
            \<and> ((stage (fst (snd ?E)) = UP \<or> stage (fst (snd ?E)) = MOVING_UP)
                  \<and> 170 > contracted_threshold (calibration example_counter_up) + 10
               \<or> (stage (fst (snd ?E)) = DOWN \<or> stage (fst (snd ?E)) = MOVING_DOWN)
                  \<and> 170 < extended_threshold (calibration example_counter_up) - 10))"
    by (simp add: example_defs model_defs)
  have f: "2 \<le> (100::real) \<and> (100::real) \<le> 178
      \<and> \<not> (velocity_of (angle_history (fst ?F) RIGHT) < 0.5
            \<and> ((stage (fst (snd ?F)) = UP \<or> stage (fst (snd ?F)) = MOVING_UP)
                  \<and> 100 > contracted_threshold (calibration example_counter_up) + 10
               \<or> (stage (fst (snd ?F)) = DOWN \<or> stage (fst (snd ?F)) = MOVING_DOWN)
                  \<and> 100 < extended_threshold (calibration example_counter_up) - 10))"
    by (simp add: example_defs model_defs)
  have last_e: "1.1 - last_rep_time (fst ?E) RIGHT < 2"
    "current_compliment (fst ?E) RIGHT = ''Keep Pushing!''"
    by (simp_all add: example_defs model_defs)
  have last_f: "\<not> 5 - last_rep_time (fst ?F) RIGHT < 2"
    by (simp add: example_defs model_defs)
  from form_feedback_priority [OF p len(1), THEN conjunct1, THEN mp, OF a]
  have 1: "feedback (fst (snd ?A)) = ''Over Extending''" .
  from form_feedback_priority [OF p len(2), THEN conjunct2, THEN conjunct1, THEN mp, OF b]
  have 2: "feedback (fst (snd ?B)) = ''Over Curling''" .
  from form_feedback_priority [OF p len(3), THEN conjunct2, THEN conjunct2,
      THEN conjunct1, THEN mp, OF c]
  have 3: "feedback (fst (snd ?C)) = ''Curl Higher''" .
  from form_feedback_priority [OF p len(4), THEN conjunct2, THEN conjunct2,
      THEN conjunct2, THEN conjunct1, THEN mp, OF d]
  have 4: "feedback (fst (snd ?D)) = ''Extend Fully''" .
  from form_feedback_priority [OF p len(5), THEN conjunct2, THEN conjunct2,
      THEN conjunct2, THEN conjunct2, THEN mp, OF e] last_e
  have 5: "feedback (fst (snd ?E)) = ''Keep Pushing!''" by simp
  from form_feedback_priority [OF p len(6), THEN conjunct2, THEN conjunct2,
      THEN conjunct2, THEN conjunct2, THEN mp, OF f] last_f
  have 6: "feedback (fst (snd ?F)) = ''Maintain Form''" by simp
  from 1 2 3 4 5 6 show ?thesis by simp
qed

section \<open>The stability buffer\<close>

text \<open>
  C5. \<open>process_rep\<close> appends the sample to the limb's buffer, dropping the oldest sample
  when the buffer already holds 8, so a buffer of at most 8 samples stays so, and every
  buffer of a counter run from \<open>__init__\<close> holds at most 8 samples; the other limb's
  buffer is untouched. When the buffer then holds fewer than 4 samples the call changes
  nothing but the buffer and \<open>metrics.angle\<close>: no stage, pending candidate, timing
  field, feedback or history counter. When it holds at least 4, the call is the
  classifier, the confirmer, the update of \<open>curr_rep_time\<close> and the advisor, run on the
  velocity \<open>|newest - fourth newest| / 3\<close> with the newest sample the angle just passed:
  the stage changes exactly when the target differs from the stage, is the pending
  candidate, has been held for \<open>state_hold_time\<close> and this velocity is below 15, and
  the feedback is the advisor's choice among the four warnings, the stored compliment
  and "Maintain Form", with this velocity in both stall tests.
\<close>

theorem stability_buffer:
  assumes "process_rep s arm ang m t h r = (s', m', h')"
  shows
    "(length (angle_history s arm) < 8 \<longrightarrow>
        angle_history s' arm = angle_history s arm @ [ang])
   \<and> (length (angle_history s arm) = 8 \<longrightarrow>
        angle_history s' arm = tl (angle_history s arm) @ [ang])
   \<and> (length (angle_history s arm) \<le> 8 \<longrightarrow> length (angle_history s' arm) \<le> 8)
   \<and> (\<forall>other. other \<noteq> arm \<longrightarrow> angle_history s' other = angle_history s other)
   \<and> (length (angle_history s' arm) < 4 \<longrightarrow>
        s' = s\<lparr>angle_history := (angle_history s)(arm := angle_history s' arm)\<rparr>
      \<and> m' = m\<lparr>angle := ang\<rparr> \<and> h' = h)
   \<and> (4 \<le> length (angle_history s' arm) \<longrightarrow>
        velocity_of (angle_history s' arm) =
          \<bar>ang - angle_history s' arm ! (length (angle_history s' arm) - 4)\<bar> / 3
      \<and> (stage m' \<noteq> stage m \<longrightarrow> velocity_of (angle_history s' arm) < 15)
      \<and> (feedback m' = ''Over Extending'' \<or> feedback m' = ''Over Curling''
          \<or> feedback m' = ''Curl Higher'' \<or> feedback m' = ''Extend Fully''
          \<or> feedback m' = ''Maintain Form'' \<or> feedback m' = current_compliment s' arm)
      \<and> (s', m', h') =
          (let v = \<bar>ang - angle_history s' arm ! (length (angle_history s' arm) - 4)\<bar> / 3;
               c = contracted_threshold (calibration s);
               e = extended_threshold (calibration s);
               sc = state_confirmation (s\<lparr>angle_history := angle_history s'\<rparr>) arm
                      (stage m) (determine_target_state s ang c e (stage m))
                      (m\<lparr>angle := ang\<rparr>) t v r;
               m2 = (if stage (snd sc) = UP
                     then (snd sc)\<lparr>curr_rep_time := t - rep_start_time (fst sc) arm\<rparr>
                     else snd sc);
               fb = provide_form_feedback (fst sc) ang m2 c e arm h v t
           in (fst sc, fst fb, snd fb))
      \<and> (stage m' \<noteq> stage m \<longleftrightarrow>
            target_of s ang m \<noteq> stage m
          \<and> pending_state s arm = Some (target_of s ang m)
          \<and> state_hold_time s \<le> t - pending_state_start s arm
          \<and> \<bar>ang - angle_history s' arm ! (length (angle_history s' arm) - 4)\<bar> / 3 < 15)
      \<and> feedback m' =
          (if ang > 178 then ''Over Extending''
           else if ang < 2 then ''Over Curling''
           else if \<bar>ang - angle_history s' arm ! (length (angle_history s' arm) - 4)\<bar> / 3 < 0.5
                   \<and> (stage m' = MOVING_UP \<or> stage m' = UP)
                   \<and> ang > contracted_threshold (calibration s) + 10
             then ''Curl Higher''
           else if \<bar>ang - angle_history s' arm ! (length (angle_history s' arm) - 4)\<bar> / 3 < 0.5
                   \<and> (stage m' = MOVING_DOWN \<or> stage m' = DOWN)
                   \<and> ang < extended_threshold (calibration s) - 10
             then ''Extend Fully''
           else if t - last_rep_time s' arm < 2 then current_compliment s' arm
           else ''Maintain Form''))
   \<and> (counter ss = RepCounter_init calibration_data min_rep_dur \<longrightarrow>
        length (angle_history (counter (run ss cs)) a) \<le> 8)"
proof -
  note p = process_rep_projections [OF assms]
  have b: "angle_history s' = (angle_history s)(arm := buffer_after s arm ang)"
    unfolding p(1) by (rule process_rep_angle_history)
  have b': "angle_history s' arm = buffer_after s arm ang"
    by (simp add: b)
  have A: "length (angle_history s arm) < 8 \<longrightarrow>
        angle_history s' arm = angle_history s arm @ [ang]"
    by (simp add: b deque_append_not_full)
  have B: "length (angle_history s arm) = 8 \<longrightarrow>
        angle_history s' arm = tl (angle_history s arm) @ [ang]"
    by (simp add: b deque_append_full)
  have C: "length (angle_history s arm) \<le> 8 \<longrightarrow> length (angle_history s' arm) \<le> 8"
    by (simp add: b length_deque_append)
  have D: "\<forall>other. other \<noteq> arm \<longrightarrow> angle_history s' other = angle_history s other"
    by (simp add: b)
  have E: "length (angle_history s' arm) < 4 \<longrightarrow>
        s' = s\<lparr>angle_history := (angle_history s)(arm := angle_history s' arm)\<rparr>
      \<and> m' = m\<lparr>angle := ang\<rparr> \<and> h' = h"
    using assms by (auto simp: b process_rep_short)
  have v: "velocity_of (buffer_after s arm ang) =
      \<bar>ang - buffer_after s arm ang ! (length (buffer_after s arm ang) - 4)\<bar> / 3"
    by (simp add: velocity_of_def deque_append_newest)
  have F: "4 \<le> length (angle_history s' arm) \<longrightarrow>
        velocity_of (angle_history s' arm) =
          \<bar>ang - angle_history s' arm ! (length (angle_history s' arm) - 4)\<bar> / 3
      \<and> (stage m' \<noteq> stage m \<longrightarrow> velocity_of (angle_history s' arm) < 15)
      \<and> (feedback m' = ''Over Extending'' \<or> feedback m' = ''Over Curling''
          \<or> feedback m' = ''Curl Higher'' \<or> feedback m' = ''Extend Fully''
          \<or> feedback m' = ''Maintain Form'' \<or> feedback m' = current_compliment s' arm)
      \<and> (s', m', h') =
          (let v = \<bar>ang - angle_history s' arm ! (length (angle_history s' arm) - 4)\<bar> / 3;
               c = contracted_threshold (calibration s);
               e = extended_threshold (calibration s);
               sc = state_confirmation (s\<lparr>angle_history := angle_history s'\<rparr>) arm
                      (stage m) (determine_target_state s ang c e (stage m))
                      (m\<lparr>angle := ang\<rparr>) t v r;
               m2 = (if stage (snd sc) = UP
                     then (snd sc)\<lparr>curr_rep_time := t - rep_start_time (fst sc) arm\<rparr>
                     else snd sc);
               fb = provide_form_feedback (fst sc) ang m2 c e arm h v t
           in (fst sc, fst fb, snd fb))
      \<and> (stage m' \<noteq> stage m \<longleftrightarrow>
            target_of s ang m \<noteq> stage m
          \<and> pending_state s arm = Some (target_of s ang m)
          \<and> state_hold_time s \<le> t - pending_state_start s arm
          \<and> \<bar>ang - angle_history s' arm ! (length (angle_history s' arm) - 4)\<bar> / 3 < 15)
      \<and> feedback m' =
          (if ang > 178 then ''Over Extending''
           else if ang < 2 then ''Over Curling''
           else if \<bar>ang - angle_history s' arm ! (length (angle_history s' arm) - 4)\<bar> / 3 < 0.5
                   \<and> (stage m' = MOVING_UP \<or> stage m' = UP)
                   \<and> ang > contracted_threshold (calibration s) + 10
             then ''Curl Higher''
           else if \<bar>ang - angle_history s' arm ! (length (angle_history s' arm) - 4)\<bar> / 3 < 0.5
                   \<and> (stage m' = MOVING_DOWN \<or> stage m' = DOWN)
                   \<and> ang < extended_threshold (calibration s) - 10
             then ''Extend Fully''
           else if t - last_rep_time s' arm < 2 then current_compliment s' arm
           else ''Maintain Form'')"
  proof
    assume "4 \<le> length (angle_history s' arm)"
    then have len: "4 \<le> length (buffer_after s arm ang)" by (simp add: b)
    have st: "stage m' \<noteq> stage m \<longrightarrow> velocity_of (buffer_after s arm ang) < 15"
      unfolding p(2) by (simp add: process_rep_metrics_full [OF len] commits_def)
    have fb: "feedback m' = ''Over Extending'' \<or> feedback m' = ''Over Curling''
          \<or> feedback m' = ''Curl Higher'' \<or> feedback m' = ''Extend Fully''
          \<or> feedback m' = ''Maintain Form'' \<or> feedback m' = current_compliment s' arm"
      by (simp add: process_rep_feedback_full(1) [OF len assms])
    have pipe: "(s', m', h') =
          (let v = \<bar>ang - buffer_after s arm ang ! (length (buffer_after s arm ang) - 4)\<bar> / 3;
               c = contracted_threshold (calibration s);
               e = extended_threshold (calibration s);
               sc = state_confirmation
                      (s\<lparr>angle_history := (angle_history s)(arm := buffer_after s arm ang)\<rparr>)
                      arm (stage m) (determine_target_state s ang c e (stage m))
                      (m\<lparr>angle := ang\<rparr>) t v r;
               m2 = (if stage (snd sc) = UP
                     then (snd sc)\<lparr>curr_rep_time := t - rep_start_time (fst sc) arm\<rparr>
                     else snd sc);
               fb = provide_form_feedback (fst sc) ang m2 c e arm h v t
           in (fst sc, fst fb, snd fb))"
      by (simp only: assms [symmetric] process_rep_full [OF len] v)
    have chg: "stage m' \<noteq> stage m \<longleftrightarrow>
            target_of s ang m \<noteq> stage m
          \<and> pending_state s arm = Some (target_of s ang m)
          \<and> state_hold_time s \<le> t - pending_state_start s arm
          \<and> \<bar>ang - buffer_after s arm ang ! (length (buffer_after s arm ang) - 4)\<bar> / 3 < 15"
      unfolding p(2) v [symmetric] using len
      by (auto simp: process_rep_metrics_full [OF len] commits_def)
    note full = process_rep_feedback_full(1) [OF len assms, unfolded v]
    from v st fb pipe chg full
    show "velocity_of (angle_history s' arm) =
          \<bar>ang - angle_history s' arm ! (length (angle_history s' arm) - 4)\<bar> / 3
      \<and> (stage m' \<noteq> stage m \<longrightarrow> velocity_of (angle_history s' arm) < 15)
      \<and> (feedback m' = ''Over Extending'' \<or> feedback m' = ''Over Curling''
          \<or> feedback m' = ''Curl Higher'' \<or> feedback m' = ''Extend Fully''
          \<or> feedback m' = ''Maintain Form'' \<or> feedback m' = current_compliment s' arm)
      \<and> (s', m', h') =
          (let v = \<bar>ang - angle_history s' arm ! (length (angle_history s' arm) - 4)\<bar> / 3;
               c = contracted_threshold (calibration s);
               e = extended_threshold (calibration s);
               sc = state_confirmation (s\<lparr>angle_history := angle_history s'\<rparr>) arm
                      (stage m) (determine_target_state s ang c e (stage m))
                      (m\<lparr>angle := ang\<rparr>) t v r;
               m2 = (if stage (snd sc) = UP
                     then (snd sc)\<lparr>curr_rep_time := t - rep_start_time (fst sc) arm\<rparr>
                     else snd sc);
               fb = provide_form_feedback (fst sc) ang m2 c e arm h v t
           in (fst sc, fst fb, snd fb))
      \<and> (stage m' \<noteq> stage m \<longleftrightarrow>
            target_of s ang m \<noteq> stage m
          \<and> pending_state s arm = Some (target_of s ang m)
          \<and> state_hold_time s \<le> t - pending_state_start s arm
          \<and> \<bar>ang - angle_history s' arm ! (length (angle_history s' arm) - 4)\<bar> / 3 < 15)
      \<and> feedback m' =
          (if ang > 178 then ''Over Extending''
           else if ang < 2 then ''Over Curling''
           else if \<bar>ang - angle_history s' arm ! (length (angle_history s' arm) - 4)\<bar> / 3 < 0.5
                   \<and> (stage m' = MOVING_UP \<or> stage m' = UP)
                   \<and> ang > contracted_threshold (calibration s) + 10
             then ''Curl Higher''
           else if \<bar>ang - angle_history s' arm ! (length (angle_history s' arm) - 4)\<bar> / 3 < 0.5
                   \<and> (stage m' = MOVING_DOWN \<or> stage m' = DOWN)
                   \<and> ang < extended_threshold (calibration s) - 10
             then ''Extend Fully''
           else if t - last_rep_time s' arm < 2 then current_compliment s' arm
           else ''Maintain Form'')"
      unfolding b' unfolding b by (intro conjI) assumption+
  qed
  have G: "counter ss = RepCounter_init calibration_data min_rep_dur \<longrightarrow>
        length (angle_history (counter (run ss cs)) a) \<le> 8"
  proof
    assume "counter ss = RepCounter_init calibration_data min_rep_dur"
    then have "\<forall>a. length (angle_history (counter ss) a) \<le> 8"
      by (simp add: RepCounter_init_def)
    then have "\<forall>a. length (angle_history (counter (run ss cs)) a) \<le> 8"
      by (rule run_buffer_bound)
    then show "length (angle_history (counter (run ss cs)) a) \<le> 8" by simp
  qed
  from A B C D E F G show ?thesis by blast
qed


theorem stability_buffer_witness:
  "length (angle_history (RepCounter_init_default example_calibration) RIGHT) < 8
   \<and> angle_history (fst (process_rep (RepCounter_init_default example_calibration) RIGHT
                            170 example_metrics 0 example_history 0)) RIGHT = [170]
   \<and> fst (snd (process_rep (RepCounter_init_default example_calibration) RIGHT
                  170 example_metrics 0 example_history 0)) = example_metrics\<lparr>angle := 170\<rparr>
   \<and> snd (snd (process_rep (RepCounter_init_default example_calibration) RIGHT
                  170 example_metrics 0 example_history 0)) = example_history
   \<and> length (angle_history example_counter_up RIGHT) = 8
   \<and> angle_history (fst (process_rep example_counter_up RIGHT 170 example_metrics_up 1.1
                            example_history 3)) RIGHT
       = [30, 30, 30, 30, 170, 170, 170, 170]
   \<and> angle_history (fst (process_rep example_counter_up RIGHT 170 example_metrics_up 1.1
                            example_history 3)) LEFT = []
   \<and> velocity_of (angle_history (fst (process_rep example_counter_up RIGHT 170
                                         example_metrics_up 1.1 example_history 3)) RIGHT)
       = 0
   \<and> length (angle_history (counter (run example_session example_calls)) RIGHT) \<le> 8
   \<and> stage (fst (snd (process_rep example_counter_up RIGHT 170 example_metrics_up 1.1
                         example_history 3))) \<noteq> stage example_metrics_up
   \<and> feedback (fst (snd (process_rep example_counter_up RIGHT 170 example_metrics_up 1.1
                            example_history 3))) = ''Keep Pushing!''
   \<and> stage (fst (snd (process_rep example_counter_up RIGHT 100 example_metrics_up 1.1
                         example_history 3))) = stage example_metrics_up"
proof -
  let ?s0 = "RepCounter_init_default example_calibration"
  let ?A = "process_rep ?s0 RIGHT 170 example_metrics 0 example_history 0"
  let ?B = "process_rep example_counter_up RIGHT 170 example_metrics_up 1.1
              example_history 3"
  let ?C = "process_rep example_counter_up RIGHT 100 example_metrics_up 1.1
              example_history 3"
  have p: "X = (fst X, fst (snd X), snd (snd X))"
    for X :: "RepCounter \<times> Metrics \<times> History" by simp
  note TA = stability_buffer [OF p [of ?A], where ss = example_session
      and calibration_data = example_calibration and min_rep_dur = "0.6"
      and cs = example_calls and a = RIGHT]
  note TB = stability_buffer [OF p [of ?B], where ss = example_session
      and calibration_data = example_calibration and min_rep_dur = "0.6"
      and cs = example_calls and a = RIGHT]
  note TC = stability_buffer [OF p [of ?C], where ss = example_session
      and calibration_data = example_calibration and min_rep_dur = "0.6"
      and cs = example_calls and a = RIGHT]
  have l0: "length (angle_history ?s0 RIGHT) < 8"
    by (simp add: model_defs)
  from TA [THEN conjunct1, THEN mp, OF l0]
  have a1: "angle_history (fst ?A) RIGHT = [170]" by (simp add: model_defs)
  then have short: "length (angle_history (fst ?A) RIGHT) < 4" by simp
  from TA [THEN conjunct2, THEN conjunct2, THEN conjunct2, THEN conjunct2, THEN conjunct1,
      THEN mp, OF short]
  have a2: "fst (snd ?A) = example_metrics\<lparr>angle := 170\<rparr>"
    and a3: "snd (snd ?A) = example_history" by simp_all
  have l8: "length (angle_history example_counter_up RIGHT) = 8"
    by (simp add: example_defs)
  from TB [THEN conjunct2, THEN conjunct1, THEN mp, OF l8]
  have b1: "angle_history (fst ?B) RIGHT = [30, 30, 30, 30, 170, 170, 170, 170]"
    by (simp add: example_defs)
  have ne: "LEFT \<noteq> RIGHT" by simp
  from TB [THEN conjunct2, THEN conjunct2, THEN conjunct2, THEN conjunct1, THEN spec,
      THEN mp, OF ne]
  have b2: "angle_history (fst ?B) LEFT = []" by (simp add: example_defs)
  from b1 have long: "4 \<le> length (angle_history (fst ?B) RIGHT)" by simp
  note FB = TB [THEN conjunct2, THEN conjunct2, THEN conjunct2, THEN conjunct2,
      THEN conjunct2, THEN conjunct1, THEN mp, OF long]
  from FB [THEN conjunct1]
  have b3: "velocity_of (angle_history (fst ?B) RIGHT) = 0" by (simp add: b1)
  have init: "counter example_session = RepCounter_init example_calibration 0.6"
    by (simp add: example_session_def RepCounter_init_default_def)
  from TB [THEN conjunct2, THEN conjunct2, THEN conjunct2, THEN conjunct2, THEN conjunct2,
      THEN conjunct2, THEN mp, OF init]
  have r: "length (angle_history (counter (run example_session example_calls)) RIGHT) \<le> 8" .
  have slow: "\<bar>170 - angle_history (fst ?B) RIGHT ! (length (angle_history (fst ?B) RIGHT) - 4)\<bar> / 3
          < 15"
    by (simp add: b1)
  have "target_of example_counter_up 170 example_metrics_up \<noteq> stage example_metrics_up
      \<and> pending_state example_counter_up RIGHT
          = Some (target_of example_counter_up 170 example_metrics_up)
      \<and> state_hold_time example_counter_up
          \<le> 1.1 - pending_state_start example_counter_up RIGHT"
    by (simp add: example_defs determine_target_state_def)
  with slow
  have due: "target_of example_counter_up 170 example_metrics_up \<noteq> stage example_metrics_up
      \<and> pending_state example_counter_up RIGHT
          = Some (target_of example_counter_up 170 example_metrics_up)
      \<and> state_hold_time example_counter_up
          \<le> 1.1 - pending_state_start example_counter_up RIGHT
      \<and> \<bar>170 - angle_history (fst ?B) RIGHT ! (length (angle_history (fst ?B) RIGHT) - 4)\<bar> / 3
          < 15"
    by blast
  from FB [THEN conjunct2, THEN conjunct2, THEN conjunct2, THEN conjunct2, THEN conjunct1,
      THEN iffD2, OF due]
  have b4: "stage (fst (snd ?B)) \<noteq> stage example_metrics_up" .
  from FB [THEN conjunct2, THEN conjunct2, THEN conjunct2, THEN conjunct2, THEN conjunct2]
  have b5: "feedback (fst (snd ?B)) = ''Keep Pushing!''"
    by (simp add: example_defs model_defs)
  from TC [THEN conjunct2, THEN conjunct1, THEN mp, OF l8]
  have c1: "angle_history (fst ?C) RIGHT = [30, 30, 30, 30, 170, 170, 170, 100]"
    by (simp add: example_defs)
  then have longC: "4 \<le> length (angle_history (fst ?C) RIGHT)" by simp
  have fast: "\<not> \<bar>100 - angle_history (fst ?C) RIGHT ! (length (angle_history (fst ?C) RIGHT) - 4)\<bar> / 3
          < 15"
    by (simp add: c1)
  from TC [THEN conjunct2, THEN conjunct2, THEN conjunct2, THEN conjunct2,
      THEN conjunct2, THEN conjunct1, THEN mp, OF longC, THEN conjunct2, THEN conjunct2,
      THEN conjunct2, THEN conjunct2, THEN conjunct1] fast
  have c2: "stage (fst (snd ?C)) = stage example_metrics_up" by blast
  from l0 a1 a2 a3 l8 b1 b2 b3 r b4 b5 c2 show ?thesis by simp
qed

section \<open>The history counter\<close>

text \<open>
  C8 (as amended). The four warnings (over-extension, over-curl, curl-higher,
  extend-fully) all increment one and the same counter of the limb,
  \<open>{arm}_feedback_count\<close>: a call of \<open>process_rep\<close> adds exactly 1 to it when the call
  computes a velocity and one of the four conditions holds (once per sample, not once
  per episode), and adds nothing otherwise; the other limb's counter is unchanged; over
  any sequence of calls no counter decreases.
\<close>

theorem feedback_counter_per_limb:
  assumes "process_rep s arm ang m t h r = (s', m', h')"
  shows
    "feedback_count arm h' = feedback_count arm h +
       (if 4 \<le> length (angle_history s' arm)
           \<and> (ang > 178 \<or> ang < 2
              \<or> velocity_of (angle_history s' arm) < 0.5
                \<and> ((stage m' = UP \<or> stage m' = MOVING_UP)
                      \<and> ang > contracted_threshold (calibration s) + 10
                   \<or> (stage m' = DOWN \<or> stage m' = MOVING_DOWN)
                      \<and> ang < extended_threshold (calibration s) - 10))
        then 1 else 0)
   \<and> (\<forall>other. other \<noteq> arm \<longrightarrow> feedback_count other h' = feedback_count other h)
   \<and> feedback_count a (history ss) \<le> feedback_count a (history (run ss cs))"
proof -
  note p = process_rep_projections [OF assms]
  have b: "angle_history s' arm = buffer_after s arm ang"
    unfolding p(1) by (simp add: process_rep_angle_history)
  have oth: "\<forall>other. other \<noteq> arm \<longrightarrow> feedback_count other h' = feedback_count other h"
    using process_rep_history [of s arm ang m t h r, folded p]
    by (auto simp: feedback_count_bump)
  show ?thesis
  proof (cases "4 \<le> length (buffer_after s arm ang)")
    case True
    note fb = process_rep_feedback_full(2) [OF True assms]
    have "feedback_count arm h' = feedback_count arm h +
       (if ang > 178 \<or> ang < 2
              \<or> velocity_of (buffer_after s arm ang) < 0.5
                \<and> ((stage m' = UP \<or> stage m' = MOVING_UP)
                      \<and> ang > contracted_threshold (calibration s) + 10
                   \<or> (stage m' = DOWN \<or> stage m' = MOVING_DOWN)
                      \<and> ang < extended_threshold (calibration s) - 10)
        then 1 else 0)"
      by (subst fb) (auto simp: feedback_count_bump)
    with True oth show ?thesis
      by (simp add: b run_feedback_count_mono)
  next
    case False
    with assms have "h' = h" by (simp add: process_rep_short)
    with False oth show ?thesis
      by (simp add: b run_feedback_count_mono)
  qed
qed

theorem feedback_counter_per_limb_witness:
  "feedback_count RIGHT (snd (snd (process_rep example_counter_up RIGHT 179
       example_metrics_up 1.1 example_history 3))) = feedback_count RIGHT example_history + 1
   \<and> feedback_count LEFT (snd (snd (process_rep example_counter_up RIGHT 179
       example_metrics_up 1.1 example_history 3))) = feedback_count LEFT example_history
   \<and> feedback_count RIGHT (snd (snd (process_rep example_counter_up RIGHT 170
       example_metrics_up 1.1 example_history 3))) = feedback_count RIGHT example_history"
proof -
  let ?A = "process_rep example_counter_up RIGHT 179 example_metrics_up 1.1
              example_history 3"
  let ?E = "process_rep example_counter_up RIGHT 170 example_metrics_up 1.1
              example_history 3"
  have p: "X = (fst X, fst (snd X), snd (snd X))"
    for X :: "RepCounter \<times> Metrics \<times> History" by simp
  note TA = feedback_counter_per_limb [OF p [of ?A], where ss = example_session
      and cs = example_calls and a = RIGHT]
  note TE = feedback_counter_per_limb [OF p [of ?E], where ss = example_session
      and cs = example_calls and a = RIGHT]
  have len: "4 \<le> length (angle_history (fst ?A) RIGHT)"
    by (simp add: example_defs model_defs)
  have a: "(179::real) > 178" by simp
  from TA [THEN conjunct1] len a
  have 1: "feedback_count RIGHT (snd (snd ?A)) = feedback_count RIGHT example_history + 1"
    by simp
  have ne: "LEFT \<noteq> RIGHT" by simp
  from TA [THEN conjunct2, THEN conjunct1, THEN spec, THEN mp, OF ne]
  have 2: "feedback_count LEFT (snd (snd ?A)) = feedback_count LEFT example_history" .
  have e: "\<not> (170::real) > 178" "\<not> (170::real) < 2" "stage (fst (snd ?E)) = DOWN"
    "\<not> 170 < extended_threshold (calibration example_counter_up) - 10"
    by (simp_all add: example_defs model_defs)
  from TE [THEN conjunct1] e
  have 3: "feedback_count RIGHT (snd (snd ?E)) = feedback_count RIGHT example_history"
    by simp
  from 1 2 3 show ?thesis by simp
qed

text \<open>
  One sample of over-extension followed by one sample of over-curl: the second warning
  raises the counter the first one raised, from 1 to 2.
\<close>

theorem shared_feedback_counter_counterexample:
  "feedback (arm_metrics (run example_session example_safety_calls) RIGHT)
     = ''Over Extending''
   \<and> history (run example_session example_safety_calls)
     = \<lparr>right_feedback_count = 1, left_feedback_count = 0\<rparr>
   \<and> feedback (arm_metrics (run example_session
                 (example_safety_calls @ [Process_rep RIGHT 1 0.4 0])) RIGHT)
     = ''Over Curling''
   \<and> history (run example_session (example_safety_calls @ [Process_rep RIGHT 1 0.4 0]))
     = \<lparr>right_feedback_count = 2, left_feedback_count = 0\<rparr>"
  by (simp add: example_safety_calls_def example_defs model_defs)

section \<open>The fastest repetition\<close>

text \<open>
  C6. On a counter made by \<open>__init__\<close>, for every \<open>min_rep_duration\<close>, under the
  caller's monotonic clock (the timestamps of successive calls never decrease and the
  record's \<open>last_down_time\<close> is not ahead of the first of them): starting from a
  metrics record whose \<open>min_rep_time\<close> is 0, after every sequence of calls
  \<open>min_rep_time\<close> is 0 if no repetition has been counted for the limb and the minimum
  of the recorded \<open>rep_time\<close> over all counted repetitions otherwise. A call that
  counts no repetition leaves \<open>min_rep_time\<close> unchanged, and a call that counts one
  sets it to that repetition's \<open>rep_time\<close> when it was 0 and to
  \<open>min(min_rep_time, rep_time)\<close> otherwise.
\<close>

theorem min_rep_time_is_fastest:
  assumes "counter ss = RepCounter_init calibration_data min_rep_dur"
    and "min_rep_time (arm_metrics ss a) = 0"
    and "last_down_time (arm_metrics ss a) \<le> now"
    and "monotonic_from now cs"
  shows "min_rep_time (arm_metrics (run ss cs) a) =
           (if counted_rep_times ss cs a = [] then 0
            else Min (set (counted_rep_times ss cs a)))
       \<and> (rep_count (fst (snd (process_rep s arm ang m t h r))) = rep_count m \<longrightarrow>
            min_rep_time (fst (snd (process_rep s arm ang m t h r))) = min_rep_time m)
       \<and> (rep_count (fst (snd (process_rep s arm ang m t h r))) \<noteq> rep_count m \<longrightarrow>
            min_rep_time (fst (snd (process_rep s arm ang m t h r))) =
              (if min_rep_time m = 0
               then rep_time (fst (snd (process_rep s arm ang m t h r)))
               else min (min_rep_time m)
                      (rep_time (fst (snd (process_rep s arm ang m t h r))))))"
proof -
  from assms(1,3) have inv: "clock_invariant ss now a"
    by (simp add: clock_invariant_def RepCounter_init_def)
  have "min_rep_time (arm_metrics (run ss cs) a) =
     (if [] @ counted_rep_times ss cs a = [] then 0
      else Min (set ([] @ counted_rep_times ss cs a)))"
    by (rule run_min_rep_time_clock [OF inv assms(4)]) (use assms(2) in simp_all)
  moreover note process_rep_min_rep_time [of s arm ang m t h r]
  ultimately show ?thesis by (auto simp: min.commute)
qed

theorem min_rep_time_is_fastest_witness:
  "counter example_zero_duration_session = RepCounter_init example_calibration 0
   \<and> min_rep_time (arm_metrics example_zero_duration_session RIGHT) = 0
   \<and> last_down_time (arm_metrics example_zero_duration_session RIGHT) \<le> 0
   \<and> monotonic_from 0 example_two_reps_calls
   \<and> counted_rep_times example_zero_duration_session example_two_reps_calls RIGHT = [1.1, 0.8]
   \<and> min_rep_time (arm_metrics (run example_zero_duration_session example_two_reps_calls)
                     RIGHT) = 0.8
   \<and> min_rep_time (arm_metrics (run example_zero_duration_session example_calls) RIGHT) = 0"
proof -
  have i: "counter example_zero_duration_session = RepCounter_init example_calibration 0"
    by (simp add: example_zero_duration_session_def)
  have z: "min_rep_time (arm_metrics example_zero_duration_session RIGHT) = 0"
    by (simp add: example_zero_duration_session_def example_defs)
  have l: "last_down_time (arm_metrics example_zero_duration_session RIGHT) \<le> 0"
    by (simp add: example_zero_duration_session_def example_defs)
  have m: "monotonic_from 0 example_two_reps_calls"
    by (simp add: example_two_reps_calls_def example_calls_def)
  have m0: "monotonic_from 0 example_calls"
    by (simp add: example_calls_def)
  have c: "counted_rep_times example_zero_duration_session example_two_reps_calls RIGHT
             = [1.1, 0.8]"
    by (simp add: example_zero_duration_session_def example_two_reps_calls_def
          example_defs model_defs)
  have c0: "counted_rep_times example_zero_duration_session example_calls RIGHT = []"
    by (simp add: example_zero_duration_session_def example_defs model_defs)
  from min_rep_time_is_fastest [where cs = example_two_reps_calls, OF i z l m,
      THEN conjunct1]
  have r: "min_rep_time (arm_metrics (run example_zero_duration_session
                                        example_two_reps_calls) RIGHT) = 0.8"
    by (simp add: c)
  from min_rep_time_is_fastest [where cs = example_calls, OF i z l m0, THEN conjunct1]
  have r0: "min_rep_time (arm_metrics (run example_zero_duration_session example_calls)
                            RIGHT) = 0"
    by (simp add: c0)
  from i z l m c r r0 show ?thesis by simp
qed

section \<open>Determinism\<close>

text \<open>
  C9 (as amended). Two runs started from the same state and fed the same sequence of
  calls with the same limbs, angles and timestamps agree after every call, whatever the
  random generator draws, on the stage, \<open>rep_count\<close>, all timing fields, the angle,
  the history counters and the whole state of the counter except the stored compliment.
  They agree on the feedback string as well, except while the stored compliment is
  shown: either the two strings are equal or each is the compliment its own run stored.
  The call that follows leaves both strings unchanged when the buffer holds fewer than
  4 samples, and otherwise takes the same branch of the advisor in both runs: the same
  warning, or "Maintain Form", or, when no warning fires and less than 2 s have passed
  since the last counted repetition, the compliment that the run's own draw of
  \<open>random.choice\<close> selected.
\<close>

theorem deterministic_up_to_compliment:
  assumes "list_all2 same_inputs cs cs'"
  shows "without_phrases (run ss cs) = without_phrases (run ss cs')
       \<and> history (run ss cs) = history (run ss cs')
       \<and> stage (arm_metrics (run ss cs) a) = stage (arm_metrics (run ss cs') a)
       \<and> rep_count (arm_metrics (run ss cs) a) = rep_count (arm_metrics (run ss cs') a)
       \<and> rep_time (arm_metrics (run ss cs) a) = rep_time (arm_metrics (run ss cs') a)
       \<and> min_rep_time (arm_metrics (run ss cs) a)
           = min_rep_time (arm_metrics (run ss cs') a)
       \<and> curr_rep_time (arm_metrics (run ss cs) a)
           = curr_rep_time (arm_metrics (run ss cs') a)
       \<and> last_down_time (arm_metrics (run ss cs) a)
           = last_down_time (arm_metrics (run ss cs') a)
       \<and> angle (arm_metrics (run ss cs) a) = angle (arm_metrics (run ss cs') a)
       \<and> (feedback (arm_metrics (run ss cs) a) = feedback (arm_metrics (run ss cs') a)
           \<or> feedback (arm_metrics (run ss cs) a) = current_compliment (counter (run ss cs)) a
             \<and> feedback (arm_metrics (run ss cs') a) = current_compliment (counter (run ss cs')) a)
       \<and> (let fin = step (run ss cs) (Process_rep arm ang t r);
               fin' = step (run ss cs') (Process_rep arm ang t r')
           in (length (angle_history (counter fin) arm) < 4 \<longrightarrow>
                 feedback (arm_metrics fin arm) = feedback (arm_metrics (run ss cs) arm)
               \<and> feedback (arm_metrics fin' arm) = feedback (arm_metrics (run ss cs') arm))
            \<and> (4 \<le> length (angle_history (counter fin) arm) \<longrightarrow>
                 feedback (arm_metrics fin arm) =
                   (if ang > 178 then ''Over Extending''
                    else if ang < 2 then ''Over Curling''
                    else if velocity_of (angle_history (counter fin) arm) < 0.5
                            \<and> (stage (arm_metrics fin arm) = MOVING_UP \<or> stage (arm_metrics fin arm) = UP)
                            \<and> ang > contracted_threshold (calibration (counter fin)) + 10
                      then ''Curl Higher''
                    else if velocity_of (angle_history (counter fin) arm) < 0.5
                            \<and> (stage (arm_metrics fin arm) = MOVING_DOWN \<or> stage (arm_metrics fin arm) = DOWN)
                            \<and> ang < extended_threshold (calibration (counter fin)) - 10
                      then ''Extend Fully''
                    else if t - last_rep_time (counter fin) arm < 2 then current_compliment (counter fin) arm
                    else ''Maintain Form'')
               \<and> feedback (arm_metrics fin' arm) =
                   (if ang > 178 then ''Over Extending''
                    else if ang < 2 then ''Over Curling''
                    else if velocity_of (angle_history (counter fin) arm) < 0.5
                            \<and> (stage (arm_metrics fin arm) = MOVING_UP \<or> stage (arm_metrics fin arm) = UP)
                            \<and> ang > contracted_threshold (calibration (counter fin)) + 10
                      then ''Curl Higher''
                    else if velocity_of (angle_history (counter fin) arm) < 0.5
                            \<and> (stage (arm_metrics fin arm) = MOVING_DOWN \<or> stage (arm_metrics fin arm) = DOWN)
                            \<and> ang < extended_threshold (calibration (counter fin)) - 10
                      then ''Extend Fully''
                    else if t - last_rep_time (counter fin) arm < 2 then current_compliment (counter fin') arm
                    else ''Maintain Form'')))"
proof -
  have w0: "without_phrases ss = without_phrases ss" ..
  from assms w0 have w: "without_phrases (run ss cs) = without_phrases (run ss cs')"
    by (rule run_without_phrases)
  then have h: "history (run ss cs) = history (run ss cs')"
    and m: "(arm_metrics (run ss cs) a)\<lparr>feedback := []\<rparr>
           = (arm_metrics (run ss cs') a)\<lparr>feedback := []\<rparr>"
    by (simp_all add: without_phrases_eq)
  have "\<forall>a. feedback (arm_metrics ss a) = feedback (arm_metrics ss a)
        \<or> feedback (arm_metrics ss a) = current_compliment (counter ss) a
          \<and> feedback (arm_metrics ss a) = current_compliment (counter ss) a"
    by simp
  from run_feedback_agree [OF assms w0 this]
  have ag: "feedback (arm_metrics (run ss cs) a) = feedback (arm_metrics (run ss cs') a)
        \<or> feedback (arm_metrics (run ss cs) a) = current_compliment (counter (run ss cs)) a
          \<and> feedback (arm_metrics (run ss cs') a) = current_compliment (counter (run ss cs')) a"
    by blast
  let ?fin = "step (run ss cs) (Process_rep arm ang t r)"
  let ?fin' = "step (run ss cs') (Process_rep arm ang t r')"
  have "same_inputs (Process_rep arm ang t r) (Process_rep arm ang t r')" by simp
  from step_without_phrases [OF this w]
  have wf: "without_phrases ?fin = without_phrases ?fin'" .
  note e = without_phrases_fields [OF wf]
  have short: "length (angle_history (counter ?fin) arm) < 4 \<longrightarrow>
                 feedback (arm_metrics ?fin arm) = feedback (arm_metrics (run ss cs) arm)
               \<and> feedback (arm_metrics ?fin' arm) = feedback (arm_metrics (run ss cs') arm)"
  proof
    assume sh: "length (angle_history (counter ?fin) arm) < 4"
    then have sh': "length (angle_history (counter ?fin') arm) < 4"
      by (simp only: e(1))
    from step_feedback_short(1) [OF sh] step_feedback_short(1) [OF sh']
    show "feedback (arm_metrics ?fin arm) = feedback (arm_metrics (run ss cs) arm)
               \<and> feedback (arm_metrics ?fin' arm) = feedback (arm_metrics (run ss cs') arm)"
      by (rule conjI)
  qed
  have long: "4 \<le> length (angle_history (counter ?fin) arm) \<longrightarrow>
                 feedback (arm_metrics ?fin arm) =
                   (if ang > 178 then ''Over Extending''
                    else if ang < 2 then ''Over Curling''
                    else if velocity_of (angle_history (counter ?fin) arm) < 0.5
                            \<and> (stage (arm_metrics ?fin arm) = MOVING_UP \<or> stage (arm_metrics ?fin arm) = UP)
                            \<and> ang > contracted_threshold (calibration (counter ?fin)) + 10
                      then ''Curl Higher''
                    else if velocity_of (angle_history (counter ?fin) arm) < 0.5
                            \<and> (stage (arm_metrics ?fin arm) = MOVING_DOWN \<or> stage (arm_metrics ?fin arm) = DOWN)
                            \<and> ang < extended_threshold (calibration (counter ?fin)) - 10
                      then ''Extend Fully''
                    else if t - last_rep_time (counter ?fin) arm < 2 then current_compliment (counter ?fin) arm
                    else ''Maintain Form'')
               \<and> feedback (arm_metrics ?fin' arm) =
                   (if ang > 178 then ''Over Extending''
                    else if ang < 2 then ''Over Curling''
                    else if velocity_of (angle_history (counter ?fin) arm) < 0.5
                            \<and> (stage (arm_metrics ?fin arm) = MOVING_UP \<or> stage (arm_metrics ?fin arm) = UP)
                            \<and> ang > contracted_threshold (calibration (counter ?fin)) + 10
                      then ''Curl Higher''
                    else if velocity_of (angle_history (counter ?fin) arm) < 0.5
                            \<and> (stage (arm_metrics ?fin arm) = MOVING_DOWN \<or> stage (arm_metrics ?fin arm) = DOWN)
                            \<and> ang < extended_threshold (calibration (counter ?fin)) - 10
                      then ''Extend Fully''
                    else if t - last_rep_time (counter ?fin) arm < 2 then current_compliment (counter ?fin') arm
                    else ''Maintain Form'')"
  proof
    assume "4 \<le> length (angle_history (counter ?fin) arm)"
    from step_feedback_pair [OF w this]
    show "feedback (arm_metrics ?fin arm) =
                   (if ang > 178 then ''Over Extending''
                    else if ang < 2 then ''Over Curling''
                    else if velocity_of (angle_history (counter ?fin) arm) < 0.5
                            \<and> (stage (arm_metrics ?fin arm) = MOVING_UP \<or> stage (arm_metrics ?fin arm) = UP)
                            \<and> ang > contracted_threshold (calibration (counter ?fin)) + 10
                      then ''Curl Higher''
                    else if velocity_of (angle_history (counter ?fin) arm) < 0.5
                            \<and> (stage (arm_metrics ?fin arm) = MOVING_DOWN \<or> stage (arm_metrics ?fin arm) = DOWN)
                            \<and> ang < extended_threshold (calibration (counter ?fin)) - 10
                      then ''Extend Fully''
                    else if t - last_rep_time (counter ?fin) arm < 2 then current_compliment (counter ?fin) arm
                    else ''Maintain Form'')
               \<and> feedback (arm_metrics ?fin' arm) =
                   (if ang > 178 then ''Over Extending''
                    else if ang < 2 then ''Over Curling''
                    else if velocity_of (angle_history (counter ?fin) arm) < 0.5
                            \<and> (stage (arm_metrics ?fin arm) = MOVING_UP \<or> stage (arm_metrics ?fin arm) = UP)
                            \<and> ang > contracted_threshold (calibration (counter ?fin)) + 10
                      then ''Curl Higher''
                    else if velocity_of (angle_history (counter ?fin) arm) < 0.5
                            \<and> (stage (arm_metrics ?fin arm) = MOVING_DOWN \<or> stage (arm_metrics ?fin arm) = DOWN)
                            \<and> ang < extended_threshold (calibration (counter ?fin)) - 10
                      then ''Extend Fully''
                    else if t - last_rep_time (counter ?fin) arm < 2 then current_compliment (counter ?fin') arm
                    else ''Maintain Form'')"
      by (rule conjI)
  qed
  from w h m ag short long show ?thesis
    unfolding Let_def by (simp only: metrics_without_feedback_eq)
qed

theorem deterministic_up_to_compliment_witness:
  "list_all2 same_inputs (example_calls @ [Process_rep RIGHT 170 1.1 3])
     (example_calls @ [Process_rep RIGHT 170 1.1 0])
   \<and> history (run example_session (example_calls @ [Process_rep RIGHT 170 1.1 3]))
       = history (run example_session (example_calls @ [Process_rep RIGHT 170 1.1 0]))
   \<and> stage (arm_metrics (run example_session (example_calls @ [Process_rep RIGHT 170 1.1 3]))
              RIGHT)
       = stage (arm_metrics (run example_session
                  (example_calls @ [Process_rep RIGHT 170 1.1 0])) RIGHT)
   \<and> rep_count (arm_metrics (run example_session
                    (example_calls @ [Process_rep RIGHT 170 1.1 3])) RIGHT)
       = rep_count (arm_metrics (run example_session
                      (example_calls @ [Process_rep RIGHT 170 1.1 0])) RIGHT)
   \<and> feedback (arm_metrics (step (run example_session
                 (example_calls @ [Process_rep RIGHT 170 1.1 3])) (Process_rep RIGHT 170 1.2 1))
                 RIGHT)
       = current_compliment (counter (step (run example_session
           (example_calls @ [Process_rep RIGHT 170 1.1 3])) (Process_rep RIGHT 170 1.2 1))) RIGHT
   \<and> feedback (arm_metrics (step (run example_session
                 (example_calls @ [Process_rep RIGHT 170 1.1 0])) (Process_rep RIGHT 170 1.2 2))
                 RIGHT)
       = current_compliment (counter (step (run example_session
           (example_calls @ [Process_rep RIGHT 170 1.1 0])) (Process_rep RIGHT 170 1.2 2))) RIGHT
   \<and> feedback (arm_metrics (step (run example_session
                 (example_calls @ [Process_rep RIGHT 170 1.1 3])) (Process_rep RIGHT 179 1.2 1))
                 RIGHT) = ''Over Extending''
   \<and> feedback (arm_metrics (step (run example_session
                 (example_calls @ [Process_rep RIGHT 170 1.1 0])) (Process_rep RIGHT 179 1.2 2))
                 RIGHT) = ''Over Extending''
   \<and> feedback (arm_metrics (step (run example_session
                 (example_calls @ [Process_rep RIGHT 170 1.1 3])) (Process_rep RIGHT 170 5 1))
                 RIGHT) = ''Maintain Form''
   \<and> feedback (arm_metrics (step (run example_session
                 (example_calls @ [Process_rep RIGHT 170 1.1 0])) (Process_rep RIGHT 170 5 2))
                 RIGHT) = ''Maintain Form''"
proof -
  let ?cs = "example_calls @ [Process_rep RIGHT 170 1.1 3]"
  let ?cs' = "example_calls @ [Process_rep RIGHT 170 1.1 0]"
  let ?A = "step (run example_session ?cs) (Process_rep RIGHT 170 1.2 1)"
  let ?A' = "step (run example_session ?cs') (Process_rep RIGHT 170 1.2 2)"
  let ?B = "step (run example_session ?cs) (Process_rep RIGHT 179 1.2 1)"
  let ?B' = "step (run example_session ?cs') (Process_rep RIGHT 179 1.2 2)"
  let ?C = "step (run example_session ?cs) (Process_rep RIGHT 170 5 1)"
  let ?C' = "step (run example_session ?cs') (Process_rep RIGHT 170 5 2)"
  have l: "list_all2 same_inputs ?cs ?cs'"
    by (simp add: example_calls_def)
  note TA = deterministic_up_to_compliment [OF l, where ss = example_session and a = RIGHT
      and arm = RIGHT and ang = 170 and t = "1.2" and r = 1 and r' = 2, unfolded Let_def]
  note TB = deterministic_up_to_compliment [OF l, where ss = example_session and a = RIGHT
      and arm = RIGHT and ang = 179 and t = "1.2" and r = 1 and r' = 2, unfolded Let_def]
  note TC = deterministic_up_to_compliment [OF l, where ss = example_session and a = RIGHT
      and arm = RIGHT and ang = 170 and t = 5 and r = 1 and r' = 2, unfolded Let_def]
  from TA have eq: "history (run example_session ?cs) = history (run example_session ?cs')"
    "stage (arm_metrics (run example_session ?cs) RIGHT)
       = stage (arm_metrics (run example_session ?cs') RIGHT)"
    "rep_count (arm_metrics (run example_session ?cs) RIGHT)
       = rep_count (arm_metrics (run example_session ?cs') RIGHT)"
    by blast+
  have la: "4 \<le> length (angle_history (counter ?A) RIGHT)"
    by (simp add: example_defs model_defs)
  have lb: "4 \<le> length (angle_history (counter ?B) RIGHT)"
    by (simp add: example_defs model_defs)
  have lc: "4 \<le> length (angle_history (counter ?C) RIGHT)"
    by (simp add: example_defs model_defs)
  note LA = TA [THEN conjunct2, THEN conjunct2, THEN conjunct2, THEN conjunct2, THEN conjunct2,
      THEN conjunct2, THEN conjunct2, THEN conjunct2, THEN conjunct2, THEN conjunct2,
      THEN conjunct2, THEN mp, OF la]
  note LB = TB [THEN conjunct2, THEN conjunct2, THEN conjunct2, THEN conjunct2, THEN conjunct2,
      THEN conjunct2, THEN conjunct2, THEN conjunct2, THEN conjunct2, THEN conjunct2,
      THEN conjunct2, THEN mp, OF lb]
  note LC = TC [THEN conjunct2, THEN conjunct2, THEN conjunct2, THEN conjunct2, THEN conjunct2,
      THEN conjunct2, THEN conjunct2, THEN conjunct2, THEN conjunct2, THEN conjunct2,
      THEN conjunct2, THEN mp, OF lc]
  have shown: "F = k \<and> F' = k'"
    if "F = (if A then x else if B then y else if C then z else if D then u
             else if E then k else w)
        \<and> F' = (if A then x else if B then y else if C then z else if D then u
                 else if E then k' else w)"
      and "\<not> A" and "\<not> B" and "\<not> C" and "\<not> D" and "E"
    for F F' k k' x y z u w :: string and A B C D E
    using that by simp
  have plain: "F = w \<and> F' = w"
    if "F = (if A then x else if B then y else if C then z else if D then u
             else if E then k else w)
        \<and> F' = (if A then x else if B then y else if C then z else if D then u
                 else if E then k' else w)"
      and "\<not> A" and "\<not> B" and "\<not> C" and "\<not> D" and "\<not> E"
    for F F' k k' x y z u w :: string and A B C D E
    using that by simp
  have a1: "\<not> 170 > (178::real)" by simp
  have a2: "\<not> 170 < (2::real)" by simp
  have a3: "\<not> (velocity_of (angle_history (counter ?A) RIGHT) < 0.5
         \<and> (stage (arm_metrics ?A RIGHT) = MOVING_UP \<or> stage (arm_metrics ?A RIGHT) = UP)
         \<and> 170 > contracted_threshold (calibration (counter ?A)) + 10)"
    by (simp add: example_defs model_defs)
  have a4: "\<not> (velocity_of (angle_history (counter ?A) RIGHT) < 0.5
         \<and> (stage (arm_metrics ?A RIGHT) = MOVING_DOWN \<or> stage (arm_metrics ?A RIGHT) = DOWN)
         \<and> 170 < extended_threshold (calibration (counter ?A)) - 10)"
    by (simp add: example_defs model_defs)
  have a5: "1.2 - last_rep_time (counter ?A) RIGHT < 2"
    by (simp add: example_defs model_defs)
  from shown [OF LA a1 a2 a3 a4 a5]
  have ra: "feedback (arm_metrics ?A RIGHT) = current_compliment (counter ?A) RIGHT
      \<and> feedback (arm_metrics ?A' RIGHT) = current_compliment (counter ?A') RIGHT" .
  from LB have rb: "feedback (arm_metrics ?B RIGHT) = ''Over Extending''
      \<and> feedback (arm_metrics ?B' RIGHT) = ''Over Extending''"
    by simp
  have c3: "\<not> (velocity_of (angle_history (counter ?C) RIGHT) < 0.5
         \<and> (stage (arm_metrics ?C RIGHT) = MOVING_UP \<or> stage (arm_metrics ?C RIGHT) = UP)
         \<and> 170 > contracted_threshold (calibration (counter ?C)) + 10)"
    by (simp add: example_defs model_defs)
  have c4: "\<not> (velocity_of (angle_history (counter ?C) RIGHT) < 0.5
         \<and> (stage (arm_metrics ?C RIGHT) = MOVING_DOWN \<or> stage (arm_metrics ?C RIGHT) = DOWN)
         \<and> 170 < extended_threshold (calibration (counter ?C)) - 10)"
    by (simp add: example_defs model_defs)
  have c5: "\<not> 5 - last_rep_time (counter ?C) RIGHT < 2"
    by (simp add: example_defs model_defs)
  from plain [OF LC a1 a2 c3 c4 c5]
  have rc: "feedback (arm_metrics ?C RIGHT) = ''Maintain Form''
      \<and> feedback (arm_metrics ?C' RIGHT) = ''Maintain Form''" .
  from l eq ra rb rc show ?thesis by blast
qed

text \<open>
  The same session and the same samples, with two different draws at the sample that
  closes the repetition: the feedback strings differ.
\<close>

theorem feedback_depends_on_draw_counterexample:
  "feedback (arm_metrics (run example_session (example_calls @ [Process_rep RIGHT 170 1.1 3]))
      RIGHT) = ''Keep Pushing!''
   \<and> feedback (arm_metrics (run example_session
                  (example_calls @ [Process_rep RIGHT 170 1.1 0])) RIGHT)
       = ''Looking Strong!''"
  by (simp add: example_defs model_defs)

section \<open>Reset\<close>

text \<open>
  C10. \<open>reset_arm\<close> on a limb empties that limb's angle buffer, clears its pending
  candidate and the candidate's start timestamp and zeroes its \<open>rep_start_time\<close>. The
  same four entries of the other limb and every other attribute of the counter are
  unchanged, and so are the metrics records (with \<open>rep_count\<close>, \<open>min_rep_time\<close> and
  the other timing fields) and the history counters, which the method is not given.
\<close>

theorem reset_arm_frame:
  "angle_history (reset_arm s arm) arm = []
   \<and> pending_state (reset_arm s arm) arm = None
   \<and> pending_state_start (reset_arm s arm) arm = 0
   \<and> rep_start_time (reset_arm s arm) arm = 0
   \<and> (\<forall>other. other \<noteq> arm \<longrightarrow>
          angle_history (reset_arm s arm) other = angle_history s other
        \<and> pending_state (reset_arm s arm) other = pending_state s other
        \<and> pending_state_start (reset_arm s arm) other = pending_state_start s other
        \<and> rep_start_time (reset_arm s arm) other = rep_start_time s other)
   \<and> calibration (reset_arm s arm) = calibration s
   \<and> min_rep_duration (reset_arm s arm) = min_rep_duration s
   \<and> state_hold_time (reset_arm s arm) = state_hold_time s
   \<and> last_rep_time (reset_arm s arm) = last_rep_time s
   \<and> current_compliment (reset_arm s arm) = current_compliment s
   \<and> hysteresis_margin (reset_arm s arm) = hysteresis_margin s
   \<and> arm_metrics (step ss (Reset_arm arm)) = arm_metrics ss
   \<and> history (step ss (Reset_arm arm)) = history ss
   \<and> counter (step ss (Reset_arm arm)) = reset_arm (counter ss) arm"
  by (simp add: reset_arm_def)

theorem reset_arm_frame_witness:
  "RIGHT \<noteq> LEFT
   \<and> angle_history (reset_arm example_counter_up LEFT) RIGHT
       = [170, 30, 30, 30, 30, 170, 170, 170]
   \<and> pending_state (reset_arm example_counter_up LEFT) RIGHT = Some DOWN
   \<and> rep_start_time (reset_arm example_counter_up LEFT) RIGHT = 0.7
   \<and> angle_history (reset_arm example_counter_up RIGHT) RIGHT = []
   \<and> pending_state (reset_arm example_counter_up RIGHT) RIGHT = None
   \<and> rep_start_time (reset_arm example_counter_up RIGHT) RIGHT = 0"
proof -
  have ne: "RIGHT \<noteq> LEFT" by simp
  have old: "angle_history example_counter_up RIGHT = [170, 30, 30, 30, 30, 170, 170, 170]"
    "pending_state example_counter_up RIGHT = Some DOWN"
    "rep_start_time example_counter_up RIGHT = 0.7"
    by (simp_all add: example_counter_up_def)
  from reset_arm_frame [of example_counter_up LEFT] ne old
  have a: "angle_history (reset_arm example_counter_up LEFT) RIGHT
             = [170, 30, 30, 30, 30, 170, 170, 170]"
    "pending_state (reset_arm example_counter_up LEFT) RIGHT = Some DOWN"
    "rep_start_time (reset_arm example_counter_up LEFT) RIGHT = 0.7"
    by simp_all
  from reset_arm_frame [of example_counter_up RIGHT]
  have b: "angle_history (reset_arm example_counter_up RIGHT) RIGHT = []"
    "pending_state (reset_arm example_counter_up RIGHT) RIGHT = None"
    "rep_start_time (reset_arm example_counter_up RIGHT) RIGHT = 0"
    by simp_all
  from ne a b show ?thesis by simp
qed

end
